theory Spec2Isabelle
  imports Complex_Main
begin

section \<open>Numbers\<close>

text \<open>
  The program computes with Python and NumPy floats. A finite float is modelled by the
  real number it stands for (no rounding, no overflow), and the special values that the
  program produces and tests on purpose (\<open>float('inf')\<close>, the result of a NumPy division
  by zero) are values of their own. The model has one zero; every zero divisor of the
  program is the difference of two equal numbers, which is \<open>+0\<close>.
\<close>

datatype fl = Fin real | PInf | NInf | NaN

fun fneg :: "fl \<Rightarrow> fl" where
  "fneg (Fin a) = Fin (- a)"
| "fneg PInf = NInf"
| "fneg NInf = PInf"
| "fneg NaN = NaN"

fun fadd :: "fl \<Rightarrow> fl \<Rightarrow> fl" where
  "fadd (Fin a) (Fin b) = Fin (a + b)"
| "fadd NaN _ = NaN"
| "fadd _ NaN = NaN"
| "fadd PInf NInf = NaN"
| "fadd NInf PInf = NaN"
| "fadd PInf _ = PInf"
| "fadd NInf _ = NInf"
| "fadd _ PInf = PInf"
| "fadd _ NInf = NInf"

definition fsub :: "fl \<Rightarrow> fl \<Rightarrow> fl" where
  "fsub a b = fadd a (fneg b)"

definition inf_of_sign :: "real \<Rightarrow> fl" where
  "inf_of_sign s = (if s = 0 then NaN else if 0 < s then PInf else NInf)"

fun fmul :: "fl \<Rightarrow> fl \<Rightarrow> fl" where
  "fmul (Fin a) (Fin b) = Fin (a * b)"
| "fmul NaN _ = NaN"
| "fmul _ NaN = NaN"
| "fmul (Fin a) PInf = inf_of_sign a"
| "fmul (Fin a) NInf = inf_of_sign (- a)"
| "fmul PInf (Fin b) = inf_of_sign b"
| "fmul NInf (Fin b) = inf_of_sign (- b)"
| "fmul PInf PInf = PInf"
| "fmul NInf NInf = PInf"
| "fmul PInf NInf = NInf"
| "fmul NInf PInf = NInf"

text \<open>NumPy division: a zero divisor gives an infinity or NaN (with a warning), no exception.\<close>

fun fdiv :: "fl \<Rightarrow> fl \<Rightarrow> fl" where
  "fdiv (Fin a) (Fin b) = (if b = 0 then inf_of_sign a else Fin (a / b))"
| "fdiv NaN _ = NaN"
| "fdiv _ NaN = NaN"
| "fdiv (Fin a) PInf = Fin 0"
| "fdiv (Fin a) NInf = Fin 0"
| "fdiv PInf (Fin b) = (if 0 \<le> b then PInf else NInf)"
| "fdiv NInf (Fin b) = (if 0 \<le> b then NInf else PInf)"
| "fdiv PInf PInf = NaN"
| "fdiv PInf NInf = NaN"
| "fdiv NInf PInf = NaN"
| "fdiv NInf NInf = NaN"

fun flt :: "fl \<Rightarrow> fl \<Rightarrow> bool" where
  "flt (Fin a) (Fin b) = (a < b)"
| "flt NaN _ = False"
| "flt _ NaN = False"
| "flt NInf NInf = False"
| "flt NInf _ = True"
| "flt PInf _ = False"
| "flt (Fin a) PInf = True"
| "flt (Fin a) NInf = False"

fun fle :: "fl \<Rightarrow> fl \<Rightarrow> bool" where
  "fle (Fin a) (Fin b) = (a \<le> b)"
| "fle NaN _ = False"
| "fle _ NaN = False"
| "fle NInf _ = True"
| "fle PInf PInf = True"
| "fle PInf _ = False"
| "fle (Fin a) PInf = True"
| "fle (Fin a) NInf = False"

text \<open>Python's \<open>==\<close> on floats: NaN equals nothing, every other value equals itself.\<close>

definition feq :: "fl \<Rightarrow> fl \<Rightarrow> bool" where
  "feq a b = (a \<noteq> NaN \<and> a = b)"

section \<open>Errors\<close>

datatype error =
    IndexError          \<comment> \<open>a sequence read out of range\<close>
  | KeyError            \<comment> \<open>a dictionary key that was never set\<close>
  | ZeroDivisionError   \<comment> \<open>a Python float divided by zero\<close>
  | ValueError          \<comment> \<open>\<open>np.random.randint(0, 0)\<close>, \<open>np.max\<close> of nothing\<close>
  | SystemExit          \<comment> \<open>\<open>exit()\<close>\<close>
  | NoHull              \<comment> \<open>\<open>binary_hull\<close> returned before building anything\<close>
  | QhullError          \<comment> \<open>the hull routine refused the points\<close>

text \<open>Python indexing \<open>xs[i]\<close>: a negative index counts from the end.\<close>

definition py_get :: "'a list \<Rightarrow> int \<Rightarrow> error + 'a" where
  "py_get xs i =
     (if 0 \<le> i \<and> i < int (length xs) then Inr (xs ! nat i)
      else if i < 0 \<and> - int (length xs) \<le> i then Inr (xs ! nat (int (length xs) + i))
      else Inl IndexError)"

text \<open>Sequencing: the first error stops the computation, as a raised exception does.\<close>

definition ebind :: "error + 'a \<Rightarrow> ('a \<Rightarrow> error + 'b) \<Rightarrow> error + 'b" where
  "ebind m f = (case m of Inl err \<Rightarrow> Inl err | Inr v \<Rightarrow> f v)"

section \<open>Configuration: \<open>QueryConvexHull.__init__\<close>\<close>

record args =
  hull_temp :: "real option"
  hull_cutoff :: "real option"
  chempots :: "real list option"

definition K2eV :: real where
  "K2eV = 861733 / 10 ^ 10"

definition init_hull_cutoff :: "args \<Rightarrow> real" where
  "init_hull_cutoff a =
     (case hull_temp a of
        Some t \<Rightarrow> t * K2eV
      | None \<Rightarrow> (case hull_cutoff a of Some c \<Rightarrow> c | None \<Rightarrow> 0))"

text \<open>Explicit chemical potentials: a positive value is negated.\<close>

definition init_chem_pots :: "args \<Rightarrow> real list option" where
  "init_chem_pots a = map_option (map (\<lambda>pot. if 0 < pot then - 1 * pot else pot)) (chempots a)"

section \<open>Structure records\<close>

text \<open>
  A record of the query cursor is a dictionary. The fields that \<open>binary_hull\<close> and the
  sampler attach later (\<open>enthalpy_per_b\<close>, \<open>stoich\<close>, \<open>num_a\<close>, \<open>hull_distance\<close>,
  \<open>capacity\<close>) are absent (\<open>None\<close>) until they are set; reading an absent one is a
  \<open>KeyError\<close>. The chemical potentials \<open>self.match\<close> are dictionaries of the same shape.
\<close>

record doc =
  stoichiometry :: "(string \<times> nat) list"
  num_fu :: nat
  enthalpy :: real
  enthalpy_per_atom :: real
  cell_volume :: real
  enthalpy_per_b :: "real option"
  stoich :: "real option"
  num_a :: "fl option"
  hull_distance :: "fl option"
  capacity :: "fl option"

text \<open>Python's \<open>x in s\<close> on strings: \<open>x\<close> occurs in \<open>s\<close> as a substring.\<close>

fun py_in :: "string \<Rightarrow> string \<Rightarrow> bool" where
  "py_in x [] = (x = [])"
| "py_in x (c # cs) = (take (length x) (c # cs) = x \<or> py_in x cs)"

section \<open>\<open>binary_hull\<close>\<close>

subsection \<open>The loop over the cursor (lines 176 to 210)\<close>

text \<open>
  \<open>for j in range(len(doc['stoichiometry']))\<close>: every entry of the record whose element
  is the chemical potential's element takes its share off the formation energy.
\<close>

fun formation_inner :: "string \<Rightarrow> real \<Rightarrow> nat \<Rightarrow> (string \<times> nat) list \<Rightarrow> real \<Rightarrow> real" where
  "formation_inner mu_elem mu_epa atoms_per_fu [] f = f"
| "formation_inner mu_elem mu_epa atoms_per_fu ((e, n) # s) f =
     formation_inner mu_elem mu_epa atoms_per_fu s
       (if mu_elem = e then f - mu_epa * real n / real atoms_per_fu else f)"

text \<open>\<open>for mu in self.match\<close>; \<open>mu['stoichiometry'][0][0]\<close> is read inside the inner loop.\<close>

fun formation_outer :: "doc list \<Rightarrow> nat \<Rightarrow> (string \<times> nat) list \<Rightarrow> real \<Rightarrow> error + real" where
  "formation_outer [] atoms_per_fu s f = Inr f"
| "formation_outer (mu # mus) atoms_per_fu s f =
     (if s = [] then formation_outer mus atoms_per_fu s f
      else (case stoichiometry mu of
              [] \<Rightarrow> Inl IndexError
            | (mu_elem, _) # _ \<Rightarrow>
                formation_outer mus atoms_per_fu s
                  (formation_inner mu_elem (enthalpy_per_atom mu) atoms_per_fu s f)))"

text \<open>
  \<open>for elem in doc['stoichiometry']: if x_elem in elem[0]: ...\<close>. The pair carries
  \<open>stoich[ind]\<close> (which stays \<open>0.0\<close> when nothing matches) and the record.
\<close>

fun stoich_loop :: "string \<Rightarrow> nat \<Rightarrow> (string \<times> nat) list \<Rightarrow> real \<times> doc \<Rightarrow> real \<times> doc" where
  "stoich_loop x_elem atoms_per_fu [] acc = acc"
| "stoich_loop x_elem atoms_per_fu ((e, n) # s) (st, d) =
     stoich_loop x_elem atoms_per_fu s
       (if py_in x_elem e
        then (let st' = real n / real atoms_per_fu
              in (st', d\<lparr>stoich := Some st',
                         num_a := Some (fdiv (Fin st') (Fin (1 - st')))\<rparr>))
        else (st, d))"

text \<open>What one pass of the loop body leaves in the arrays, and the annotated record.\<close>

record row =
  row_doc :: doc
  row_formation :: real
  row_stoich :: real
  row_enthalpy :: real
  row_volume :: real

definition structure_row :: "string \<Rightarrow> string \<Rightarrow> doc list \<Rightarrow> doc \<Rightarrow> error + row" where
  "structure_row x_elem one_minus_x_elem match d =
     (case stoichiometry d of
        (e0, n0) # (e1, n1) # rest \<Rightarrow>
          (let atoms_per_fu = n0 + n1 in
           ebind (if e0 = one_minus_x_elem then Inr n0
                  else if e1 = one_minus_x_elem then Inr n1
                  else Inl SystemExit) (\<lambda>num_b.
             if num_b * num_fu d = 0 then Inl ZeroDivisionError
             else
               (let enth = enthalpy d / real (num_b * num_fu d);
                    d1 = d\<lparr>enthalpy_per_b := Some enth\<rparr>;
                    vol = cell_volume d / real (num_b * num_fu d)
                in ebind (formation_outer match atoms_per_fu (stoichiometry d)
                            (enthalpy_per_atom d)) (\<lambda>f.
                     (let (st, d2) = stoich_loop x_elem atoms_per_fu (stoichiometry d) (0, d1)
                      in Inr \<lparr>row_doc = d2, row_formation = f, row_stoich = st,
                              row_enthalpy = enth, row_volume = vol\<rparr>)))))
      | _ \<Rightarrow> Inl IndexError)"

text \<open>The loop stops at the first record that raises.\<close>

fun structure_rows :: "string \<Rightarrow> string \<Rightarrow> doc list \<Rightarrow> doc list \<Rightarrow> error + row list" where
  "structure_rows x_elem one_minus_x_elem match [] = Inr []"
| "structure_rows x_elem one_minus_x_elem match (d # ds) =
     ebind (structure_row x_elem one_minus_x_elem match d) (\<lambda>r.
     ebind (structure_rows x_elem one_minus_x_elem match ds) (\<lambda>rs. Inr (r # rs)))"

subsection \<open>The hull and the distances (lines 213 to 259)\<close>

text \<open>\<open>bisect.bisect_left\<close> of the standard library: a binary search.\<close>

function bisect_loop :: "real list \<Rightarrow> real \<Rightarrow> nat \<Rightarrow> nat \<Rightarrow> nat" where
  "bisect_loop a x lo hi =
     (if lo < hi
      then (let mid = (lo + hi) div 2
            in if a ! mid < x then bisect_loop a x (mid + 1) hi else bisect_loop a x lo mid)
      else lo)"
  by pat_completeness auto
termination
  by (relation "measure (\<lambda>(a, x, lo, hi). hi - lo)") auto

declare bisect_loop.simps [simp del]

definition bisect_left :: "real list \<Rightarrow> real \<Rightarrow> nat" where
  "bisect_left a x = bisect_loop a x 0 (length a)"

text \<open>
  One vertex of the hull that passes \<open>structures[v, 1] <= 0\<close>: its composition, formation
  energy, enthalpy per B and volume.
\<close>

type_synonym hull_point = "real \<times> real \<times> real \<times> real"

definition lower_vertices ::
    "(real \<times> real) list \<Rightarrow> real list \<Rightarrow> real list \<Rightarrow> nat list \<Rightarrow> hull_point list" where
  "lower_vertices pts enth vol vertices =
     map (\<lambda>v. (fst (pts ! v), snd (pts ! v), enth ! v, vol ! v))
       (filter (\<lambda>v. snd (pts ! v) \<le> 0) vertices)"

text \<open>
  \<open>a[np.argsort(hull_comp)]\<close> for each of the four arrays: the vertices ordered by
  composition. Vertices of equal composition keep their order (the insertion sort that
  NumPy runs on short arrays).
\<close>

definition argsort_comp :: "hull_point list \<Rightarrow> hull_point list" where
  "argsort_comp hps = sort_key fst hps"

text \<open>The body of the loop of lines 249 to 259, for one point.\<close>

definition hull_dist_at :: "real list \<Rightarrow> real list \<Rightarrow> real \<times> real \<Rightarrow> error + fl" where
  "hull_dist_at comps energies p =
     (let i = int (bisect_left comps (fst p)) in
      ebind (py_get energies (i - 1)) (\<lambda>e0.
      ebind (py_get energies i) (\<lambda>e1.
      ebind (py_get comps (i - 1)) (\<lambda>c0.
      ebind (py_get comps i) (\<lambda>c1.
        (let gradient = fdiv (Fin (e1 - e0)) (Fin (c1 - c0));
             intercept = fdiv (fsub (Fin (e1 + e0)) (fmul gradient (Fin (c1 + c0)))) (Fin 2)
         in Inr (fsub (Fin (snd p)) (fadd (fmul gradient (Fin (fst p))) intercept))))))))"

fun hull_dists :: "real list \<Rightarrow> real list \<Rightarrow> (real \<times> real) list \<Rightarrow> error + fl list" where
  "hull_dists comps energies [] = Inr []"
| "hull_dists comps energies (p # ps) =
     ebind (hull_dist_at comps energies p) (\<lambda>h.
     ebind (hull_dists comps energies ps) (\<lambda>hs. Inr (h # hs)))"

subsection \<open>The list handed to the other modules (lines 279 to 291)\<close>

text \<open>
  \<open>for ind in range(1, len(hull_dist)-1)\<close>: the records of the cursor with their
  distances \<open>hull_dist[1:-1]\<close>, in cursor order.
\<close>

definition near_hull :: "real \<Rightarrow> doc list \<Rightarrow> fl list \<Rightarrow> doc list" where
  "near_hull cutoff cur dists =
     map (\<lambda>(d, h). d\<lparr>hull_distance := Some h\<rparr>)
       (filter (\<lambda>(d, h). fle h (Fin (cutoff + 1 / 10 ^ 12))) (zip cur dists))"

record hull_result =
  structures :: "(real \<times> real) list"
  hull_dist :: "fl list"
  hull_comp :: "real list"
  hull_energy :: "real list"
  hull_cursor :: "doc list"
  stable_comp :: "real list"
  stable_enthalpy_per_b :: "real list"
  mu_enthalpy :: "real list"

text \<open>
  \<open>binary_hull\<close>. What it takes from outside this file is a parameter: the hull routine
  \<open>ConvexHull\<close> of SciPy (\<open>qhull\<close>, which returns the indices of the hull's vertices or
  raises), and what \<open>get_chempots\<close> found in the database or on the command line
  (\<open>match0\<close>, \<open>match1\<close> for \<open>self.match\<close>, with
  \<open>self.mu_enthalpy[i] = self.match[i]['enthalpy_per_atom']\<close> as both of its branches set
  it, and \<open>mu_volume\<close>). The colour index, the text for the data cursor and the
  arrays \<open>stable_energy\<close>, \<open>stable_vol\<close>, \<open>stable_hull_dist\<close> serve the plots only and
  are left out.
\<close>

definition binary_hull ::
    "((real \<times> real) list \<Rightarrow> error + nat list) \<Rightarrow> string list \<Rightarrow> doc \<Rightarrow> doc \<Rightarrow> real \<times> real
      \<Rightarrow> real \<Rightarrow> doc list \<Rightarrow> error + hull_result" where
  "binary_hull qhull elements match0 match1 mu_volume cutoff cur =
     (case elements of
        [x_elem, one_minus_x_elem] \<Rightarrow>
          ebind (structure_rows x_elem one_minus_x_elem [match0, match1] cur) (\<lambda>rs.
            (let formation = [0] @ map row_formation rs @ [0];
                 enth = [enthalpy_per_atom match1] @ map row_enthalpy rs
                          @ [enthalpy_per_atom match0];
                 vol = [snd mu_volume] @ map row_volume rs @ [fst mu_volume];
                 sto = [0] @ map row_stoich rs @ [1];
                 pts = zip sto formation
             in ebind (qhull pts) (\<lambda>vertices.
                  if list_ex (\<lambda>v. length pts \<le> v) vertices then Inl IndexError
                  else
                    (let hps = argsort_comp (lower_vertices pts enth vol vertices);
                         comps = map fst hps;
                         energies = map (\<lambda>(c, e, h, v). e) hps
                     in ebind (hull_dists comps energies pts) (\<lambda>dists.
                          (let m0 = match0\<lparr>hull_distance := Some (Fin 0),
                                           enthalpy_per_b := Some (enthalpy_per_atom match0),
                                           num_a := Some PInf\<rparr>;
                               m1 = match1\<lparr>hull_distance := Some (Fin 0),
                                           enthalpy_per_b := Some (enthalpy_per_atom match1),
                                           num_a := Some (Fin 0)\<rparr>;
                               near = near_hull cutoff (map row_doc rs) (butlast (tl dists));
                               hps2 = argsort_comp hps
                           in Inr \<lparr>structures = pts,
                                   hull_dist = dists,
                                   hull_comp = comps,
                                   hull_energy = energies,
                                   hull_cursor = [m1] @ near @ [m0],
                                   stable_comp = map fst hps2,
                                   stable_enthalpy_per_b = map (\<lambda>(c, e, h, v). h) hps2,
                                   mu_enthalpy = [enthalpy_per_atom match0,
                                                  enthalpy_per_atom match1]\<rparr>))))))
      | _ \<Rightarrow> Inl NoHull)"

section \<open>\<open>voltage_curve\<close>\<close>

text \<open>The first loop: a composition of \<open>1\<close> is given the number \<open>1e5\<close>.\<close>

definition stable_num_of :: "real \<Rightarrow> real" where
  "stable_num_of c = (if 1 - c = 0 then 100000 else c / (1 - c))"

text \<open>
  \<open>for i in range(len(stable_num)-1, 0, -1)\<close>, as a recursion on \<open>i\<close>: the pass for \<open>i\<close>
  appends to \<open>V\<close> and \<open>x\<close>, then the passes for \<open>i - 1\<close> down to \<open>1\<close> follow. The arrays
  are NumPy arrays, so the division is NumPy's.
\<close>

fun voltage_loop ::
    "real list \<Rightarrow> real list \<Rightarrow> real \<Rightarrow> nat \<Rightarrow> fl list \<times> real list \<Rightarrow> error + fl list \<times> real list" where
  "voltage_loop epb nums mu 0 acc = Inr acc"
| "voltage_loop epb nums mu (Suc j) (V, x) =
     (if length epb \<le> Suc j \<or> length nums \<le> Suc j then Inl IndexError
      else voltage_loop epb nums mu j
             (V @ [fadd (fdiv (Fin (- (epb ! Suc j - epb ! j))) (Fin (nums ! Suc j - nums ! j)))
                     (Fin mu)],
              x @ [nums ! Suc j]))"

text \<open>
  \<open>voltage_curve\<close> leaves \<open>self.voltages\<close>, \<open>self.x\<close> and \<open>self.Q\<close>. \<open>get_capacities\<close>
  belongs to \<open>chem_utils\<close> and is a parameter (already applied to the molar mass).
\<close>

definition voltage_curve ::
    "(real \<Rightarrow> real) \<Rightarrow> real list \<Rightarrow> real list \<Rightarrow> real list
      \<Rightarrow> error + fl list \<times> real list \<times> real list" where
  "voltage_curve get_capacities epb comps mu =
     (let stable_num = map stable_num_of comps in
      ebind (if length stable_num - 1 = 0 then Inr ([], [])
             else ebind (py_get mu 0) (\<lambda>mu0.
                    voltage_loop epb stable_num mu0 (length stable_num - 1) ([], [])))
        (\<lambda>(V, x).
      ebind (py_get V (- 1)) (\<lambda>v.
        Inr (V @ [v], x @ [0], map get_capacities (x @ [0])))))"

section \<open>\<open>metastable_voltage_profile\<close>\<close>

text \<open>
  The random numbers are a parameter: \<open>rnd k\<close> is what the \<open>k\<close>-th call of the generator
  draws, and \<open>np.random.randint(0, n)\<close> brings it into \<open>[0, n)\<close>; with no such number
  (\<open>n = 0\<close>) it raises.
\<close>

definition randint :: "(nat \<Rightarrow> nat) \<Rightarrow> nat \<Rightarrow> nat \<Rightarrow> error + nat" where
  "randint rnd k n = (if n = 0 then Inl ValueError else Inr (rnd k mod n))"

text \<open>\<open>d[key]\<close> for a field that may not have been set.\<close>

definition field :: "'a option \<Rightarrow> error + 'a" where
  "field v = (case v of None \<Rightarrow> Inl KeyError | Some a \<Rightarrow> Inr a)"

text \<open>
  \<open>pick_metastable_structure\<close>: \<open>count\<close> is the value of the counter before the pass,
  \<open>k\<close> the number of draws made so far. It returns the structure and the new \<open>k\<close>.
\<close>

function pick_loop :: "(nat \<Rightarrow> nat) \<Rightarrow> doc list \<Rightarrow> doc \<Rightarrow> nat \<Rightarrow> nat \<Rightarrow> error + doc \<times> nat" where
  "pick_loop rnd structs lst count k =
     (let count' = count + 1 in
      if count' > 1000 then Inl SystemExit
      else (case randint rnd k (length structs) of
              Inl err \<Rightarrow> Inl err
            | Inr r \<Rightarrow>
                (let test = structs ! r in
                 case num_a test of
                   None \<Rightarrow> Inl KeyError
                 | Some a \<Rightarrow>
                     (case num_a lst of
                        None \<Rightarrow> Inl KeyError
                      | Some b \<Rightarrow>
                          if flt a b then Inr (test, k + 1)
                          else pick_loop rnd structs lst count' (k + 1)))))"
  by pat_completeness auto
termination
  by (relation "measure (\<lambda>(rnd, structs, lst, count, k). 1001 - count)") auto

declare pick_loop.simps [simp del]

definition pick_metastable_structure ::
    "(nat \<Rightarrow> nat) \<Rightarrow> doc list \<Rightarrow> doc \<Rightarrow> nat \<Rightarrow> error + doc \<times> nat" where
  "pick_metastable_structure rnd structs lst k = pick_loop rnd structs lst 0 k"

text \<open>\<open>get_voltage_profile_segment\<close>; \<open>mu0\<close> is \<open>self.mu_enthalpy[0]\<close>.\<close>

definition get_voltage_profile_segment :: "real \<Rightarrow> doc \<Rightarrow> doc \<Rightarrow> error + fl" where
  "get_voltage_profile_segment mu0 structure_new structure_old =
     ebind (field (enthalpy_per_b structure_new)) (\<lambda>en.
     ebind (field (enthalpy_per_b structure_old)) (\<lambda>eo.
     ebind (field (num_a structure_new)) (\<lambda>nn.
     ebind (field (num_a structure_old)) (\<lambda>no.
       (let V = fadd (fdiv (Fin (- (en - eo))) (fsub nn no)) (Fin mu0)
        in Inr (if feq no PInf then Fin 0 else V))))))"

text \<open>\<open>interp_steps\<close>: one pass of the loop, then the loop over \<open>zip(x, y)\<close>.\<close>

definition interp_assign :: "fl list \<Rightarrow> fl list \<Rightarrow> fl \<times> fl \<Rightarrow> fl list" where
  "interp_assign xspace yspace s =
     map (\<lambda>(g, v). if fle g (fst s) then snd s else v) (zip xspace yspace)"

definition interp_steps :: "fl list \<Rightarrow> fl list \<Rightarrow> fl list \<Rightarrow> fl list" where
  "interp_steps xspace x y =
     foldl (interp_assign xspace) (map (\<lambda>g. Fin 0) xspace) (zip x y)"

text \<open>\<open>list.index\<close>: the position of the first element equal to \<open>v\<close>.\<close>

definition py_index :: "'a list \<Rightarrow> 'a \<Rightarrow> error + nat" where
  "py_index xs v =
     (if v \<in> set xs then Inr (length (takeWhile (\<lambda>u. u \<noteq> v) xs)) else Inl ValueError)"

text \<open>
  One pass of the loop \<open>while not delithiated\<close>. The state of the walk is \<open>prev\<close>,
  \<open>path_structures\<close>, \<open>voltage_profile\<close> and the number of draws; the pass returns the
  structure it accepted, the new state and \<open>delithiated\<close>.
\<close>

record walk_state =
  prev :: doc
  path_structures :: "doc list"
  voltage_profile :: "(fl \<times> fl) list"
  draws :: nat

definition walk_step ::
    "(nat \<Rightarrow> nat) \<Rightarrow> real \<Rightarrow> walk_state \<Rightarrow> error + doc \<times> walk_state \<times> bool" where
  "walk_step rnd mu0 w =
     ebind (pick_metastable_structure rnd (path_structures w) (prev w) (draws w)) (\<lambda>(nxt, k).
     ebind (py_index (path_structures w) nxt) (\<lambda>idx.
     ebind (field (num_a (prev w))) (\<lambda>np.
     ebind (if \<not> feq np PInf
            then ebind (field (capacity nxt)) (\<lambda>c.
                 ebind (get_voltage_profile_segment mu0 nxt (prev w)) (\<lambda>v.
                   Inr (voltage_profile w @ [(c, v)])))
            else Inr (voltage_profile w)) (\<lambda>vp.
     ebind (field (num_a nxt)) (\<lambda>nn.
       if feq nn (Fin 0)
       then Inr (nxt, \<lparr>prev = prev w, path_structures = take idx (path_structures w),
                       voltage_profile = vp, draws = k\<rparr>, True)
       else Inr (nxt, \<lparr>prev = nxt, path_structures = take idx (path_structures w),
                       voltage_profile = vp, draws = k\<rparr>, False))))))"

text \<open>
  The loop \<open>while not delithiated\<close>. Each pass cuts \<open>path_structures\<close> before the
  structure it accepted, so the loop ends. \<open>path\<close> lists the structures accepted so far;
  the program does not keep it, and nothing the walk computes reads it.
\<close>

lemma pick_loop_unfold:
  assumes "pick_loop rnd structs lst count k = Inr (t, k')"
  shows "\<exists>a b. count < 1000 \<and> structs \<noteq> []
      \<and> num_a (structs ! (rnd k mod length structs)) = Some a \<and> num_a lst = Some b
      \<and> (flt a b \<longrightarrow> t = structs ! (rnd k mod length structs))
      \<and> (\<not> flt a b \<longrightarrow> pick_loop rnd structs lst (count + 1) (k + 1) = Inr (t, k'))"
proof -
  from assms have
    "(let count' = count + 1 in
      if count' > 1000 then Inl SystemExit
      else (case randint rnd k (length structs) of
              Inl err \<Rightarrow> Inl err
            | Inr r \<Rightarrow>
                (let test = structs ! r in
                 case num_a test of
                   None \<Rightarrow> Inl KeyError
                 | Some a \<Rightarrow>
                     (case num_a lst of
                        None \<Rightarrow> Inl KeyError
                      | Some b \<Rightarrow>
                          if flt a b then Inr (test, k + 1)
                          else pick_loop rnd structs lst count' (k + 1))))) = Inr (t, k')"
    by (simp only: pick_loop.simps [of rnd structs lst count k])
  then show ?thesis
    by (auto simp: Let_def randint_def split: if_splits option.splits)
qed

lemma pick_loop_member:
  "pick_loop rnd structs lst count k = Inr (t, k') \<Longrightarrow> t \<in> set structs"
proof (induction rnd structs lst count k rule: pick_loop.induct)
  case (1 rnd structs lst count k)
  from pick_loop_unfold [OF "1.prems"] obtain a b where u: "count < 1000" "structs \<noteq> []"
    "num_a (structs ! (rnd k mod length structs)) = Some a" "num_a lst = Some b"
    "flt a b \<longrightarrow> t = structs ! (rnd k mod length structs)"
    "\<not> flt a b \<longrightarrow> pick_loop rnd structs lst (count + 1) (k + 1) = Inr (t, k')"
    by blast
  show ?case
  proof (cases "flt a b")
    case True
    with u show ?thesis by simp
  next
    case False
    with u "1.IH" show ?thesis
      by (auto simp: randint_def)
  qed
qed

lemma length_takeWhile_neq:
  "v \<in> set xs \<Longrightarrow> length (takeWhile (\<lambda>u. u \<noteq> v) xs) < length xs"
  by (induction xs) auto

lemma walk_step_shrinks:
  assumes "walk_step rnd mu0 w = Inr (nxt, w', dl)"
  shows "length (path_structures w') < length (path_structures w)"
proof -
  from assms obtain k idx where
    pick: "pick_metastable_structure rnd (path_structures w) (prev w) (draws w) = Inr (nxt, k)"
    and idx: "py_index (path_structures w) nxt = Inr idx"
    and w': "path_structures w' = take idx (path_structures w)"
    by (auto simp: walk_step_def ebind_def split: sum.splits prod.splits if_splits)
  from idx have "idx < length (path_structures w)"
    by (auto simp: py_index_def length_takeWhile_neq split: if_splits)
  with w' show ?thesis by simp
qed

function walk ::
    "(nat \<Rightarrow> nat) \<Rightarrow> real \<Rightarrow> walk_state \<Rightarrow> doc list \<Rightarrow> error + walk_state \<times> doc list" where
  "walk rnd mu0 w path =
     (case walk_step rnd mu0 w of
        Inl err \<Rightarrow> Inl err
      | Inr (nxt, w', delithiated) \<Rightarrow>
          if delithiated then Inr (w', path @ [nxt]) else walk rnd mu0 w' (path @ [nxt]))"
  by pat_completeness auto
termination
  by (relation "measure (\<lambda>(rnd, mu0, w, path). length (path_structures w))")
     (auto dest: walk_step_shrinks)

declare walk.simps [simp del]

subsection \<open>The sampling loop\<close>

definition num_divisions :: nat where
  "num_divisions = 100"

text \<open>\<open>np.linspace(0, 2000, num_divisions)\<close>.\<close>

definition capacity_space :: "fl list" where
  "capacity_space = map (\<lambda>i. Fin (real i * (2000 / real (num_divisions - 1)))) [0 ..< num_divisions]"

definition tolerance :: real where
  "tolerance = 1 / 10 ^ 9 * real num_divisions"

definition convergence_window :: nat where
  "convergence_window = 3"

definition num_trials :: nat where
  "num_trials = 100000"

record sampler =
  running_average_profile :: "fl list"
  advanced_average_profile :: "fl list"
  diff_average_profile :: "fl list"
  all_voltage_profiles :: "(fl \<times> fl) list list"
  converged :: bool
  last_converged :: bool
  num_contribs :: nat
  num_converged :: nat
  rng_draws :: nat

definition init_sampler :: sampler where
  "init_sampler =
     \<lparr>running_average_profile = replicate num_divisions (Fin 0),
      advanced_average_profile = replicate num_divisions (Fin 0),
      diff_average_profile = replicate num_divisions (Fin 1),
      all_voltage_profiles = [],
      converged = False,
      last_converged = False,
      num_contribs = 0,
      num_converged = 0,
      rng_draws = 0\<rparr>"

fun fabs :: "fl \<Rightarrow> fl" where
  "fabs (Fin a) = Fin \<bar>a\<bar>"
| "fabs PInf = PInf"
| "fabs NInf = PInf"
| "fabs NaN = NaN"

definition fsum :: "fl list \<Rightarrow> fl" where
  "fsum xs = foldl fadd (Fin 0) xs"

text \<open>How one pass of \<open>while not converged\<close> ends: at a \<open>break\<close>, or at the end of the body.\<close>

datatype 'a outcome = Break 'a | Continue 'a

text \<open>The test on the running average at the head of the body (lines 444 to 452).\<close>

definition convergence_check :: "sampler \<Rightarrow> sampler outcome" where
  "convergence_check s =
     (if flt (fsum (map fabs (diff_average_profile s))) (Fin tolerance)
      then (if num_converged s > convergence_window then Break (s\<lparr>converged := True\<rparr>)
            else (let s1 = (if \<not> last_converged s
                            then s\<lparr>last_converged := True, num_converged := 1\<rparr> else s);
                      s2 = (if last_converged s1
                            then s1\<lparr>num_converged := num_converged s1 + 1\<rparr> else s1)
                  in Continue s2))
      else Continue s)"

text \<open>Lines 470 to 479: a path with a profile is added to the running average.\<close>

definition add_profile :: "(fl \<times> fl) list \<Rightarrow> sampler \<Rightarrow> sampler" where
  "add_profile vp s =
     (if vp \<noteq> []
      then (let adv = map (\<lambda>(a, b). fadd a b)
                        (zip (advanced_average_profile s)
                             (interp_steps capacity_space (map fst vp) (map snd vp)));
                n = num_contribs s + 1;
                avg = map (\<lambda>a. fdiv a (Fin (real n))) adv
            in s\<lparr>advanced_average_profile := adv,
                  num_contribs := n,
                  diff_average_profile :=
                    map (\<lambda>(a, b). fsub a b) (zip avg (running_average_profile s)),
                  all_voltage_profiles := all_voltage_profiles s @ [vp],
                  running_average_profile := avg\<rparr>)
      else s)"

text \<open>One pass of the body of \<open>while not converged\<close>.\<close>

definition trial :: "(nat \<Rightarrow> nat) \<Rightarrow> real \<Rightarrow> doc \<Rightarrow> doc list \<Rightarrow> sampler \<Rightarrow> error + sampler outcome" where
  "trial rnd mu0 reference_cathode structs s =
     (case convergence_check s of
        Break s' \<Rightarrow> Inr (Break s')
      | Continue s1 \<Rightarrow>
          if num_contribs s1 > num_trials then Inr (Break s1)
          else ebind (walk rnd mu0 \<lparr>prev = reference_cathode, path_structures = structs,
                                    voltage_profile = [], draws = rng_draws s1\<rparr> [])
                 (\<lambda>(w, path).
                    Inr (Continue (add_profile (voltage_profile w) (s1\<lparr>rng_draws := draws w\<rparr>)))))"

text \<open>
  The loop \<open>while not converged\<close>, with the number of passes it may make: \<open>None\<close> when
  that many passes do not end it.
\<close>

fun sampling_loop ::
    "nat \<Rightarrow> (nat \<Rightarrow> nat) \<Rightarrow> real \<Rightarrow> doc \<Rightarrow> doc list \<Rightarrow> sampler \<Rightarrow> (error + sampler) option" where
  "sampling_loop 0 rnd mu0 reference_cathode structs s =
     (if converged s then Some (Inr s) else None)"
| "sampling_loop (Suc n) rnd mu0 reference_cathode structs s =
     (if converged s then Some (Inr s)
      else (case trial rnd mu0 reference_cathode structs s of
              Inl err \<Rightarrow> Some (Inl err)
            | Inr (Break s') \<Rightarrow> Some (Inr s')
            | Inr (Continue s') \<Rightarrow> sampling_loop n rnd mu0 reference_cathode structs s'))"

text \<open>Lines 377 to 385: the structures, their capacities, the reference cathode.\<close>

fun set_capacities :: "(fl \<Rightarrow> fl) \<Rightarrow> doc list \<Rightarrow> error + doc list" where
  "set_capacities get_capacities [] = Inr []"
| "set_capacities get_capacities (d # ds) =
     ebind (field (num_a d)) (\<lambda>a.
     ebind (set_capacities get_capacities ds) (\<lambda>ds'.
       Inr (d\<lparr>capacity := Some (get_capacities a)\<rparr> # ds')))"

definition metastable_voltage_profile ::
    "nat \<Rightarrow> (nat \<Rightarrow> nat) \<Rightarrow> (fl \<Rightarrow> fl) \<Rightarrow> real \<Rightarrow> doc list \<Rightarrow> (error + sampler) option" where
  "metastable_voltage_profile passes rnd get_capacities mu0 cursor =
     (case set_capacities get_capacities (butlast cursor) of
        Inl err \<Rightarrow> Some (Inl err)
      | Inr structs \<Rightarrow>
          if structs = [] then Some (Inl ValueError)
          else (case py_get cursor (- 1) of
                  Inl err \<Rightarrow> Some (Inl err)
                | Inr reference_cathode \<Rightarrow>
                    sampling_loop passes rnd mu0 reference_cathode structs init_sampler))"

section \<open>A test fixture\<close>

text \<open>
  The first end-to-end scenario: the reference of \<open>A\<close> at \<open>-1.0\<close> eV per atom, the
  reference of \<open>B\<close> at \<open>-2.0\<close>, one compound \<open>AB\<close> at \<open>-2.0\<close>.
\<close>

definition scenario_A :: doc where
  "scenario_A =
     \<lparr>stoichiometry = [(''A'', 1)], num_fu = 1, enthalpy = - 1, enthalpy_per_atom = - 1,
      cell_volume = 0, enthalpy_per_b = None, stoich = None, num_a = None,
      hull_distance = None, capacity = None\<rparr>"

definition scenario_B :: doc where
  "scenario_B =
     \<lparr>stoichiometry = [(''B'', 1)], num_fu = 1, enthalpy = - 2, enthalpy_per_atom = - 2,
      cell_volume = 0, enthalpy_per_b = None, stoich = None, num_a = None,
      hull_distance = None, capacity = None\<rparr>"

definition scenario_AB :: doc where
  "scenario_AB =
     \<lparr>stoichiometry = [(''A'', 1), (''B'', 1)], num_fu = 1, enthalpy = - 4,
      enthalpy_per_atom = - 2, cell_volume = 10, enthalpy_per_b = None, stoich = None,
      num_a = None, hull_distance = None, capacity = None\<rparr>"

text \<open>The three points of the scenario are the corners of a triangle, so all are vertices.\<close>

definition scenario_qhull :: "(real \<times> real) list \<Rightarrow> error + nat list" where
  "scenario_qhull pts = Inr [0, 1, 2]"

definition scenario_result :: hull_result where
  "scenario_result =
     \<lparr>structures = [(0, 0), (1 / 2, - (1 / 2)), (1, 0)],
      hull_dist = [Fin 0, Fin 0, Fin 0],
      hull_comp = [0, 1 / 2, 1],
      hull_energy = [0, - (1 / 2), 0],
      hull_cursor =
        [scenario_B\<lparr>enthalpy_per_b := Some (- 2), num_a := Some (Fin 0),
                     hull_distance := Some (Fin 0)\<rparr>,
         scenario_AB\<lparr>enthalpy_per_b := Some (- 4), stoich := Some (1 / 2),
                      num_a := Some (Fin 1), hull_distance := Some (Fin 0)\<rparr>,
         scenario_A\<lparr>enthalpy_per_b := Some (- 1), num_a := Some PInf,
                     hull_distance := Some (Fin 0)\<rparr>],
      stable_comp = [0, 1 / 2, 1],
      stable_enthalpy_per_b = [- 2, - 4, - 1],
      mu_enthalpy = [- 1, - 2]\<rparr>"

section \<open>The resampling as the specification words it\<close>

text \<open>
  Following the words of the specification, for comparison with \<open>interp_steps\<close>: "for
  each grid point, use the largest-capacity sample \<open>\<le>\<close> grid point". The sample is
  looked for among those whose capacity is at most the grid point \<open>g\<close>, and a later
  sample of the same capacity replaces an earlier one.
\<close>

definition spec_largest_sample_below :: "fl \<Rightarrow> (fl \<times> fl) list \<Rightarrow> (fl \<times> fl) option" where
  "spec_largest_sample_below g samples =
     foldl (\<lambda>best s. if fle (fst s) g
                          \<and> (case best of None \<Rightarrow> True | Some b \<Rightarrow> fle (fst b) (fst s))
                      then Some s else best) None samples"

section \<open>The order of a path\<close>

text \<open>\<open>d['num_a'] < e['num_a']\<close>, for two records that both have the field.\<close>

definition num_a_lt :: "doc \<Rightarrow> doc \<Rightarrow> bool" where
  "num_a_lt d e =
     (case num_a d of
        None \<Rightarrow> False
      | Some a \<Rightarrow> (case num_a e of None \<Rightarrow> False | Some b \<Rightarrow> flt a b))"

section \<open>Fixtures for the sampler\<close>

text \<open>
  The near-hull list of the scenario as the sampler takes it: a capacity function, the
  reference cathode \<open>hull_cursor[-1]\<close>, the structures \<open>hull_cursor[:-1]\<close> with their
  capacities, and a generator that always draws \<open>1\<close>.
\<close>

definition scenario_capacities :: "fl \<Rightarrow> fl" where
  "scenario_capacities a = fmul a (Fin 1000)"

definition scenario_reference :: doc where
  "scenario_reference = last (hull_cursor scenario_result)"

definition scenario_structs :: "doc list" where
  "scenario_structs =
     map (\<lambda>d. d\<lparr>capacity := map_option scenario_capacities (num_a d)\<rparr>)
       (butlast (hull_cursor scenario_result))"

definition scenario_rnd :: "nat \<Rightarrow> nat" where
  "scenario_rnd k = 1"

text \<open>
  A second cursor: one compound \<open>AB\<close> at \<open>-1.0\<close> eV per atom, above the line between the
  references (formation energy \<open>+0.5\<close>).
\<close>

definition scenario_unstable :: doc where
  "scenario_unstable =
     \<lparr>stoichiometry = [(''A'', 1), (''B'', 1)], num_fu = 1, enthalpy = - 2,
      enthalpy_per_atom = - 1, cell_volume = 10, enthalpy_per_b = None, stoich = None,
      num_a = None, hull_distance = None, capacity = None\<rparr>"

section \<open>The conversion of a composition as the specification words it\<close>

text \<open>
  Following the words of the specification, for comparison with \<open>stable_num_of\<close>:
  "\<open>num_a = stoich/(1-stoich)\<close> (defined as \<open>+infinity\<close> when \<open>stoich == 1\<close>)".
\<close>

definition spec_num_a :: "real \<Rightarrow> fl" where
  "spec_num_a c = (if c = 1 then PInf else Fin (c / (1 - c)))"

text \<open>A capacity function on the numbers of \<open>voltage_curve\<close>, for the scenario.\<close>

definition scenario_capacity :: "real \<Rightarrow> real" where
  "scenario_capacity x = x * 1000"

text \<open>The voltage that the pass \<open>i\<close> of the loop of \<open>voltage_curve\<close> appends.\<close>

definition pair_voltage :: "real list \<Rightarrow> real list \<Rightarrow> real \<Rightarrow> nat \<Rightarrow> fl" where
  "pair_voltage epb nums mu i =
     fadd (fdiv (Fin (- (epb ! i - epb ! (i - 1)))) (Fin (nums ! i - nums ! (i - 1)))) (Fin mu)"

section \<open>The hull routine\<close>

text \<open>
  \<open>scipy.spatial.ConvexHull\<close> is not part of the program. What is assumed of it is what
  its \<open>vertices\<close> are: indices of points, such that every point lies in the convex
  closure of the points they name, and none of those is in the convex closure of the
  other points. The convex closure of a set is the least set that holds it and, with two
  points, the points between them.
\<close>

inductive_set convex_closure :: "(real \<times> real) set \<Rightarrow> (real \<times> real) set"
  for S :: "(real \<times> real) set" where
  base: "p \<in> S \<Longrightarrow> p \<in> convex_closure S"
| mix: "p \<in> convex_closure S \<Longrightarrow> q \<in> convex_closure S \<Longrightarrow> 0 \<le> t \<Longrightarrow> t \<le> 1 \<Longrightarrow>
        ((1 - t) * fst p + t * fst q, (1 - t) * snd p + t * snd q) \<in> convex_closure S"

definition is_hull_vertices :: "(real \<times> real) list \<Rightarrow> nat list \<Rightarrow> bool" where
  "is_hull_vertices pts vs \<longleftrightarrow>
     (\<forall>v \<in> set vs. v < length pts)
     \<and> (\<forall>p \<in> set pts. p \<in> convex_closure ((\<lambda>v. pts ! v) ` set vs))
     \<and> (\<forall>v \<in> set vs. pts ! v \<notin> convex_closure (set pts - {pts ! v}))"

text \<open>Twice the signed area of the triangle \<open>a\<close>, \<open>b\<close>, \<open>p\<close>.\<close>

definition cross :: "real \<times> real \<Rightarrow> real \<times> real \<Rightarrow> real \<times> real \<Rightarrow> real" where
  "cross a b p = (fst b - fst a) * (snd p - snd a) - (snd b - snd a) * (fst p - fst a)"

section \<open>Records of compounds\<close>

text \<open>
  A record of a compound of the two elements: two entries, both counts positive, and
  \<open>x_elem in elem[0]\<close> holds for one of them.
\<close>

definition binary_record :: "string \<Rightarrow> doc \<Rightarrow> bool" where
  "binary_record x_elem d \<longleftrightarrow>
     (\<exists>e0 n0 e1 n1. stoichiometry d = [(e0, n0), (e1, n1)] \<and> 0 < n0 \<and> 0 < n1
        \<and> (py_in x_elem e0 \<or> py_in x_elem e1))"

text \<open>
  The mole fraction of an element in a formula unit, and the element of a chemical
  potential, \<open>mu['stoichiometry'][0][0]\<close>.
\<close>

definition mole_fraction :: "string \<Rightarrow> (string \<times> nat) list \<Rightarrow> real" where
  "mole_fraction e s =
     real (sum_list (map snd (filter (\<lambda>en. fst en = e) s))) / real (sum_list (map snd s))"

definition chempot_element :: "doc \<Rightarrow> string" where
  "chempot_element mu = (case stoichiometry mu of [] \<Rightarrow> [] | (e, n) # rest \<Rightarrow> e)"

section \<open>A second test fixture\<close>

text \<open>
  The second end-to-end scenario: the cursor of the first with one more compound \<open>AB\<close>,
  at \<open>-1.8\<close> eV per atom. Its point lies inside the triangle of the other three.
\<close>

definition scenario_AB2 :: doc where
  "scenario_AB2 =
     \<lparr>stoichiometry = [(''A'', 1), (''B'', 1)], num_fu = 1, enthalpy = - (18 / 5),
      enthalpy_per_atom = - (9 / 5), cell_volume = 11, enthalpy_per_b = None, stoich = None,
      num_a = None, hull_distance = None, capacity = None\<rparr>"

definition scenario2_qhull :: "(real \<times> real) list \<Rightarrow> error + nat list" where
  "scenario2_qhull pts = Inr [0, 1, 3]"

definition scenario2_result :: hull_result where
  "scenario2_result =
     \<lparr>structures = [(0, 0), (1 / 2, - (1 / 2)), (1 / 2, - (3 / 10)), (1, 0)],
      hull_dist = [Fin 0, Fin 0, Fin (1 / 5), Fin 0],
      hull_comp = [0, 1 / 2, 1],
      hull_energy = [0, - (1 / 2), 0],
      hull_cursor =
        [scenario_B\<lparr>enthalpy_per_b := Some (- 2), num_a := Some (Fin 0),
                     hull_distance := Some (Fin 0)\<rparr>,
         scenario_AB\<lparr>enthalpy_per_b := Some (- 4), stoich := Some (1 / 2),
                      num_a := Some (Fin 1), hull_distance := Some (Fin 0)\<rparr>,
         scenario_A\<lparr>enthalpy_per_b := Some (- 1), num_a := Some PInf,
                     hull_distance := Some (Fin 0)\<rparr>],
      stable_comp = [0, 1 / 2, 1],
      stable_enthalpy_per_b = [- 2, - 4, - 1],
      mu_enthalpy = [- 1, - 2]\<rparr>"

section \<open>A record without the first element\<close>

text \<open>
  A compound \<open>CB\<close> at \<open>-2.0\<close> eV per atom in the cursor of the system \<open>AB\<close>: it has the
  second element, so the loop of \<open>binary_hull\<close> does not stop on it, and no entry of it
  matches the first.
\<close>

definition scenario_CB :: doc where
  "scenario_CB =
     \<lparr>stoichiometry = [(''C'', 1), (''B'', 1)], num_fu = 1, enthalpy = - 4,
      enthalpy_per_atom = - 2, cell_volume = 12, enthalpy_per_b = None, stoich = None,
      num_a = None, hull_distance = None, capacity = None\<rparr>"

text \<open>A hull routine that answers with the vertices \<open>vs\<close>, in that order.\<close>

definition listed_vertices :: "nat list \<Rightarrow> (real \<times> real) list \<Rightarrow> error + nat list" where
  "listed_vertices vs pts = Inr vs"

section \<open>Basic facts\<close>

lemma ebind_Inl [simp]: "ebind (Inl e) f = Inl e"
  by (simp add: ebind_def)

lemma ebind_Inr [simp]: "ebind (Inr v) f = f v"
  by (simp add: ebind_def)

lemma ebind_eq_Inr: "ebind m f = Inr r \<longleftrightarrow> (\<exists>v. m = Inr v \<and> f v = Inr r)"
  by (cases m) auto

lemma scenario_binary_hull:
  "binary_hull scenario_qhull [''A'', ''B''] scenario_A scenario_B (0, 0) 0 [scenario_AB]
     = Inr scenario_result"
  by code_simp

section \<open>The cutoff\<close>

text \<open>
  Claim C8. When a temperature is given, with or without a cutoff, the cutoff is the
  temperature times the Boltzmann constant \<open>8.61733e-5\<close> eV/K; when only a cutoff is
  given, it is kept as it is.
\<close>

theorem C8_temperature_precedence:
  "(hull_temp a = Some t \<longrightarrow> init_hull_cutoff a = t * (861733 / 10 ^ 10))
   \<and> (hull_temp a = None \<and> hull_cutoff a = Some c \<longrightarrow> init_hull_cutoff a = c)"
  by (simp add: init_hull_cutoff_def K2eV_def)

theorem C8_temperature_precedence_witness:
  "init_hull_cutoff \<lparr>hull_temp = Some 300, hull_cutoff = Some (1 / 20), chempots = None\<rparr>
     = 300 * (861733 / 10 ^ 10)
   \<and> init_hull_cutoff \<lparr>hull_temp = None, hull_cutoff = Some (1 / 20), chempots = None\<rparr>
     = 1 / 20"
  using C8_temperature_precedence
          [of "\<lparr>hull_temp = Some 300, hull_cutoff = Some (1 / 20), chempots = None\<rparr>" 300 c]
        C8_temperature_precedence
          [of "\<lparr>hull_temp = None, hull_cutoff = Some (1 / 20), chempots = None\<rparr>" t "1 / 20"]
  by simp

section \<open>Records with one element\<close>

lemma structure_row_short:
  "length (stoichiometry d) < 2 \<Longrightarrow> structure_row x_elem b_elem match d = Inl IndexError"
  by (auto simp: structure_row_def split: list.splits)

text \<open>
  Claim C9. The claim is that a record whose stoichiometry has one element is processed
  without a read out of range. The loop body starts with
  \<open>doc['stoichiometry'][0][1] + doc['stoichiometry'][1][1]\<close>, so such a record at the
  head of the cursor ends \<open>binary_hull\<close> with an \<open>IndexError\<close>, whatever the hull routine,
  the references and the cutoff are.
\<close>

theorem C9_single_element_record_raises:
  "length (stoichiometry d) = 1 \<Longrightarrow>
   binary_hull qhull [x_elem, b_elem] match0 match1 mu_volume cutoff (d # ds) = Inl IndexError"
  by (simp add: binary_hull_def structure_row_short)

theorem C9_single_element_record_raises_witness:
  "length (stoichiometry scenario_B) = 1
   \<and> binary_hull scenario_qhull [''A'', ''B''] scenario_A scenario_B (0, 0) 0
        [scenario_B, scenario_AB] = Inl IndexError"
proof -
  have one: "length (stoichiometry scenario_B) = 1"
    by (simp add: scenario_B_def)
  show ?thesis
    using one C9_single_element_record_raises [OF one] by simp
qed

section \<open>The ends of the near-hull list\<close>

text \<open>
  Claim C10. Whenever \<open>binary_hull\<close> produces its list \<open>hull_cursor\<close>, for any records and
  any cutoff, the list starts with the reference of \<open>B\<close>, given \<open>num_a = 0\<close>,
  \<open>hull_distance = 0\<close> and its enthalpy per atom as \<open>enthalpy_per_b\<close>, and ends with the
  reference of \<open>A\<close>, given \<open>num_a = +infinity\<close> and \<open>hull_distance = 0\<close>; the two are
  different entries, and \<open>hull_cursor[-1]\<close>, which the sampler reads as its reference
  cathode, is the reference of \<open>A\<close>.
\<close>

theorem C10_hull_cursor_endpoints:
  assumes "binary_hull qhull elements match0 match1 mu_volume cutoff cur = Inr r"
  shows "2 \<le> length (hull_cursor r)
    \<and> hd (hull_cursor r) =
        match1\<lparr>hull_distance := Some (Fin 0),
                enthalpy_per_b := Some (enthalpy_per_atom match1),
                num_a := Some (Fin 0)\<rparr>
    \<and> last (hull_cursor r) =
        match0\<lparr>hull_distance := Some (Fin 0),
                enthalpy_per_b := Some (enthalpy_per_atom match0),
                num_a := Some PInf\<rparr>
    \<and> py_get (hull_cursor r) (- 1) = Inr (last (hull_cursor r))
    \<and> hd (butlast (hull_cursor r)) = hd (hull_cursor r)"
proof -
  from assms obtain near where
    "hull_cursor r =
       [match1\<lparr>hull_distance := Some (Fin 0),
               enthalpy_per_b := Some (enthalpy_per_atom match1),
               num_a := Some (Fin 0)\<rparr>] @ near @
       [match0\<lparr>hull_distance := Some (Fin 0),
               enthalpy_per_b := Some (enthalpy_per_atom match0),
               num_a := Some PInf\<rparr>]"
    by (auto simp: binary_hull_def Let_def ebind_eq_Inr split: list.splits if_splits)
  then show ?thesis
    by (simp add: py_get_def Let_def butlast_append last_conv_nth nth_append)
qed

theorem C10_hull_cursor_endpoints_witness:
  "binary_hull scenario_qhull [''A'', ''B''] scenario_A scenario_B (0, 0) 0 [scenario_AB]
     = Inr scenario_result
   \<and> length (hull_cursor scenario_result) = 3
   \<and> hd (hull_cursor scenario_result) =
       scenario_B\<lparr>hull_distance := Some (Fin 0), enthalpy_per_b := Some (- 2),
                   num_a := Some (Fin 0)\<rparr>
   \<and> last (hull_cursor scenario_result) =
       scenario_A\<lparr>hull_distance := Some (Fin 0), enthalpy_per_b := Some (- 1),
                   num_a := Some PInf\<rparr>"
  using scenario_binary_hull C10_hull_cursor_endpoints [OF scenario_binary_hull]
  by (simp add: scenario_result_def scenario_A_def scenario_B_def)

section \<open>The step interpolation\<close>

lemma interp_assign_length [simp]:
  "length (interp_assign xspace ys s) = min (length xspace) (length ys)"
  by (simp add: interp_assign_def)

lemma interp_assign_nth:
  "i < length xspace \<Longrightarrow> length ys = length xspace \<Longrightarrow>
   interp_assign xspace ys s ! i = (if fle (xspace ! i) (fst s) then snd s else ys ! i)"
  by (simp add: interp_assign_def)

lemma foldl_interp_assign_length:
  "length ys = length xspace \<Longrightarrow> length (foldl (interp_assign xspace) ys samples) = length xspace"
  by (induction samples arbitrary: ys) auto

lemma foldl_interp_assign_nth:
  assumes "i < length xspace" and "length ys = length xspace"
  shows "foldl (interp_assign xspace) ys samples ! i =
           (case find (\<lambda>s. fle (xspace ! i) (fst s)) (rev samples) of
              None \<Rightarrow> ys ! i
            | Some s \<Rightarrow> snd s)"
  using assms
proof (induction samples rule: rev_induct)
  case Nil
  then show ?case by simp
next
  case (snoc s samples)
  then show ?case
    by (simp add: interp_assign_nth foldl_interp_assign_length)
qed

text \<open>
  Claim C6, as amended. The claim gives a grid point the voltage of the largest-capacity
  sample at or below it. \<open>interp_steps\<close> assigns a sample's voltage to the grid points
  at or below the sample's capacity, in the order of the samples, so: the value at a
  grid point is the voltage of the last sample of the list whose capacity is at least
  the grid point, and \<open>0\<close> when no sample has such a capacity. The result has one value
  for each grid point.
\<close>

theorem C6_interp_steps_last_sample_not_below:
  assumes "i < length xspace"
  shows "length (interp_steps xspace x y) = length xspace
    \<and> interp_steps xspace x y ! i =
        (case find (\<lambda>s. fle (xspace ! i) (fst s)) (rev (zip x y)) of
           None \<Rightarrow> Fin 0
         | Some s \<Rightarrow> snd s)"
  using assms
  by (simp add: interp_steps_def foldl_interp_assign_length foldl_interp_assign_nth
           split: option.splits)

theorem C6_interp_steps_last_sample_not_below_witness:
  "(1::nat) < length [Fin 0, Fin 5, Fin 20]
   \<and> interp_steps [Fin 0, Fin 5, Fin 20] [Fin 10, Fin 7, Fin 3] [Fin 1, Fin 2, Fin 4] ! 1
       = Fin 2"
proof -
  have len: "(1::nat) < length [Fin 0, Fin 5, Fin 20]"
    by simp
  show ?thesis
    using len
      C6_interp_steps_last_sample_not_below
        [OF len, of "[Fin 10, Fin 7, Fin 3]" "[Fin 1, Fin 2, Fin 4]"]
    by simp
qed

text \<open>
  The claim as stated fails on the grid of the sampler, for a path with the one sample
  of capacity \<open>10\<close> and voltage \<open>1\<close>. At the grid point \<open>2000/99\<close> the largest sample at or
  below it is that sample, and the value is \<open>0\<close>; at the grid point \<open>0\<close> no sample is at
  or below it, and the value is the sample's voltage.
\<close>

theorem C6_counterexample:
  "spec_largest_sample_below (capacity_space ! 1) (zip [Fin 10] [Fin 1]) = Some (Fin 10, Fin 1)
   \<and> interp_steps capacity_space [Fin 10] [Fin 1] ! 1 = Fin 0
   \<and> spec_largest_sample_below (capacity_space ! 0) (zip [Fin 10] [Fin 1]) = None
   \<and> interp_steps capacity_space [Fin 10] [Fin 1] ! 0 = Fin 1"
  by code_simp

section \<open>The walk of the sampler\<close>

lemma flt_trans: "flt a b \<Longrightarrow> flt b c \<Longrightarrow> flt a c"
  by (cases a; cases b; cases c) auto

lemma num_a_lt_trans: "num_a_lt d e \<Longrightarrow> num_a_lt e f \<Longrightarrow> num_a_lt d f"
  by (auto simp: num_a_lt_def split: option.splits intro: flt_trans)

lemma pick_loop_lt:
  "pick_loop rnd structs lst count k = Inr (t, k') \<Longrightarrow> num_a_lt t lst"
proof (induction rnd structs lst count k rule: pick_loop.induct)
  case (1 rnd structs lst count k)
  from pick_loop_unfold [OF "1.prems"] obtain a b where u: "count < 1000" "structs \<noteq> []"
    "num_a (structs ! (rnd k mod length structs)) = Some a" "num_a lst = Some b"
    "flt a b \<longrightarrow> t = structs ! (rnd k mod length structs)"
    "\<not> flt a b \<longrightarrow> pick_loop rnd structs lst (count + 1) (k + 1) = Inr (t, k')"
    by blast
  show ?case
  proof (cases "flt a b")
    case True
    with u show ?thesis by (simp add: num_a_lt_def)
  next
    case False
    with u "1.IH" show ?thesis
      by (auto simp: randint_def)
  qed
qed

text \<open>What one accepted step does to the state of the walk.\<close>

lemma walk_step_facts:
  assumes "walk_step rnd mu0 w = Inr (nxt, w', dl)"
  shows "num_a_lt nxt (prev w)"
    and "nxt \<in> set (path_structures w)"
    and "\<not> dl \<Longrightarrow> prev w' = nxt"
    and "dl \<longleftrightarrow> num_a nxt = Some (Fin 0)"
    and "num_a (prev w) = Some PInf \<Longrightarrow> voltage_profile w' = voltage_profile w"
    and "num_a (prev w) \<noteq> Some PInf \<Longrightarrow>
           \<exists>c v. capacity nxt = Some c \<and> get_voltage_profile_segment mu0 nxt (prev w) = Inr v
                 \<and> voltage_profile w' = voltage_profile w @ [(c, v)]"
proof -
  from assms obtain k idx np vp nn where
    pick: "pick_metastable_structure rnd (path_structures w) (prev w) (draws w) = Inr (nxt, k)"
    and np: "field (num_a (prev w)) = Inr np"
    and vp: "(if \<not> feq np PInf
            then ebind (field (capacity nxt)) (\<lambda>c.
                 ebind (get_voltage_profile_segment mu0 nxt (prev w)) (\<lambda>v.
                   Inr (voltage_profile w @ [(c, v)])))
            else Inr (voltage_profile w)) = Inr vp"
    and nn: "field (num_a nxt) = Inr nn"
    and res: "(nxt, w', dl) = (if feq nn (Fin 0)
       then (nxt, \<lparr>prev = prev w, path_structures = take idx (path_structures w),
                       voltage_profile = vp, draws = k\<rparr>, True)
       else (nxt, \<lparr>prev = nxt, path_structures = take idx (path_structures w),
                       voltage_profile = vp, draws = k\<rparr>, False))"
    by (auto simp: walk_step_def ebind_eq_Inr split: prod.splits if_splits)
  from pick show lt: "num_a_lt nxt (prev w)"
    by (auto simp: pick_metastable_structure_def dest: pick_loop_lt)
  from pick show "nxt \<in> set (path_structures w)"
    by (auto simp: pick_metastable_structure_def dest: pick_loop_member)
  from res show "\<not> dl \<Longrightarrow> prev w' = nxt"
    by (auto split: if_splits)
  from res nn show "dl \<longleftrightarrow> num_a nxt = Some (Fin 0)"
    by (auto simp: field_def feq_def split: if_splits option.splits)
  from res np vp show "num_a (prev w) = Some PInf \<Longrightarrow> voltage_profile w' = voltage_profile w"
    by (auto simp: field_def feq_def split: if_splits option.splits)
  from res np vp show "num_a (prev w) \<noteq> Some PInf \<Longrightarrow>
           \<exists>c v. capacity nxt = Some c \<and> get_voltage_profile_segment mu0 nxt (prev w) = Inr v
                 \<and> voltage_profile w' = voltage_profile w @ [(c, v)]"
    by (auto simp: field_def feq_def ebind_eq_Inr split: if_splits option.splits)
qed

lemma walk_unfold:
  "walk rnd mu0 w acc = Inr (w', path) \<Longrightarrow>
   \<exists>nxt w1 dl. walk_step rnd mu0 w = Inr (nxt, w1, dl)
     \<and> (dl \<longrightarrow> w' = w1 \<and> path = acc @ [nxt])
     \<and> (\<not> dl \<longrightarrow> walk rnd mu0 w1 (acc @ [nxt]) = Inr (w', path))"
  by (subst (asm) walk.simps) (auto split: sum.splits prod.splits if_splits)

lemma walk_path:
  "walk rnd mu0 w acc = Inr (w', path) \<Longrightarrow>
   \<exists>new. path = acc @ new \<and> new \<noteq> [] \<and> sorted_wrt (\<lambda>d e. num_a_lt e d) (prev w # new)"
proof (induction rnd mu0 w acc arbitrary: w' path rule: walk.induct)
  case (1 rnd mu0 w acc)
  from walk_unfold [OF "1.prems"] obtain nxt w1 dl where
    step: "walk_step rnd mu0 w = Inr (nxt, w1, dl)"
    and fin: "dl \<longrightarrow> w' = w1 \<and> path = acc @ [nxt]"
    and rec: "\<not> dl \<longrightarrow> walk rnd mu0 w1 (acc @ [nxt]) = Inr (w', path)"
    by blast
  note facts = walk_step_facts [OF step]
  show ?case
  proof (cases dl)
    case True
    with fin have "path = acc @ [nxt]" by simp
    with facts(1) show ?thesis by simp
  next
    case False
    with rec have "walk rnd mu0 w1 (acc @ [nxt]) = Inr (w', path)" by simp
    from "1.IH" [OF step refl refl False this] obtain new where
      new: "path = (acc @ [nxt]) @ new" "sorted_wrt (\<lambda>d e. num_a_lt e d) (prev w1 # new)"
      by blast
    from facts(3) False have p: "prev w1 = nxt" by simp
    have "sorted_wrt (\<lambda>d e. num_a_lt e d) (prev w # nxt # new)"
      using new(2) p facts(1) by (auto intro: num_a_lt_trans)
    with new(1) show ?thesis by (intro exI [of _ "nxt # new"]) simp
  qed
qed

lemma scenario_set_capacities:
  "set_capacities scenario_capacities (butlast (hull_cursor scenario_result))
     = Inr scenario_structs"
  by code_simp

lemma scenario_first_step:
  "walk_step scenario_rnd (- 1)
     \<lparr>prev = scenario_reference, path_structures = scenario_structs, voltage_profile = [],
      draws = 0\<rparr>
   = Inr (scenario_structs ! 1,
          \<lparr>prev = scenario_structs ! 1, path_structures = [scenario_structs ! 0],
           voltage_profile = [], draws = 1\<rparr>, False)"
  by code_simp

lemma scenario_walk:
  "walk scenario_rnd (- 1)
     \<lparr>prev = scenario_reference, path_structures = scenario_structs, voltage_profile = [],
      draws = 0\<rparr> []
   = Inr (\<lparr>prev = scenario_structs ! 1, path_structures = [],
           voltage_profile = [(Fin 0, Fin 1)], draws = 2\<rparr>,
          [scenario_structs ! 1, scenario_structs ! 0])"
  by code_simp

text \<open>
  Claim C4. A walk that ends has accepted a list of structures, \<open>path\<close>, one for each
  pass of its loop, each returned by \<open>pick_metastable_structure\<close> with the structure
  before it as \<open>last\<close>. Along the reference followed by the path, \<open>num_a\<close> is strictly
  decreasing: every structure has a smaller \<open>num_a\<close> than every structure before it,
  the one just before it in particular. This holds from any starting state of the
  walk; the sampler starts it at the reference cathode with the whole pool.
\<close>

theorem C4_path_strictly_decreasing:
  assumes "walk rnd mu0 w [] = Inr (w', path)"
  shows "sorted_wrt (\<lambda>d e. num_a_lt e d) (prev w # path)"
  using walk_path [OF assms] by auto

theorem C4_path_strictly_decreasing_witness:
  "walk scenario_rnd (- 1)
     \<lparr>prev = scenario_reference, path_structures = scenario_structs, voltage_profile = [],
      draws = 0\<rparr> []
   = Inr (\<lparr>prev = scenario_structs ! 1, path_structures = [],
           voltage_profile = [(Fin 0, Fin 1)], draws = 2\<rparr>,
          [scenario_structs ! 1, scenario_structs ! 0])
   \<and> sorted_wrt (\<lambda>d e. num_a_lt e d)
        [scenario_reference, scenario_structs ! 1, scenario_structs ! 0]"
  using scenario_walk C4_path_strictly_decreasing [OF scenario_walk] by simp

section \<open>The first step of a path\<close>

text \<open>
  Claim C7, as amended. The claim gives the first accepted step, from the reference
  cathode whose \<open>num_a\<close> is \<open>+infinity\<close>, a segment of voltage \<open>0\<close> in the profile. The
  loop appends a segment only under \<open>if prev['num_a'] != float('inf')\<close>, so: a step from
  a structure whose \<open>num_a\<close> is \<open>+infinity\<close> leaves the voltage profile as it was, which
  for the first step of a path is empty. \<open>get_voltage_profile_segment\<close> does return \<open>0\<close>
  for such a step whenever it returns, but the loop does not call it there.
\<close>

theorem C7_first_step_adds_no_segment:
  assumes "num_a (prev w) = Some PInf"
    and "walk_step rnd mu0 w = Inr (nxt, w', dl)"
  shows "voltage_profile w' = voltage_profile w
    \<and> (\<forall>v. get_voltage_profile_segment mu0 nxt (prev w) = Inr v \<longrightarrow> v = Fin 0)"
proof -
  have "voltage_profile w' = voltage_profile w"
    using walk_step_facts(5) [OF assms(2)] assms(1) by simp
  moreover have "\<forall>v. get_voltage_profile_segment mu0 nxt (prev w) = Inr v \<longrightarrow> v = Fin 0"
    using assms(1)
    by (auto simp: get_voltage_profile_segment_def ebind_eq_Inr field_def feq_def
             split: option.splits)
  ultimately show ?thesis by simp
qed

theorem C7_first_step_adds_no_segment_witness:
  "num_a scenario_reference = Some PInf
   \<and> walk_step scenario_rnd (- 1)
       \<lparr>prev = scenario_reference, path_structures = scenario_structs, voltage_profile = [],
        draws = 0\<rparr>
     = Inr (scenario_structs ! 1,
            \<lparr>prev = scenario_structs ! 1, path_structures = [scenario_structs ! 0],
             voltage_profile = [], draws = 1\<rparr>, False)
   \<and> get_voltage_profile_segment (- 1) (scenario_structs ! 1) scenario_reference = Inr (Fin 0)"
proof -
  have inf: "num_a scenario_reference = Some PInf"
    by code_simp
  have seg: "get_voltage_profile_segment (- 1) (scenario_structs ! 1) scenario_reference
               = Inr (Fin 0)"
    by code_simp
  show ?thesis
    using inf seg scenario_first_step
      C7_first_step_adds_no_segment
        [of "\<lparr>prev = scenario_reference, path_structures = scenario_structs,
              voltage_profile = [], draws = 0\<rparr>", OF _ scenario_first_step]
    by simp
qed

text \<open>
  The claim as stated fails on the scenario. The first accepted step, from the
  reference cathode to \<open>AB\<close>, leaves the profile empty; the finished path
  reference, \<open>AB\<close>, \<open>B\<close> has one segment, that of its second step, and its voltage is \<open>1\<close>.
\<close>

theorem C7_counterexample:
  "num_a scenario_reference = Some PInf
   \<and> walk_step scenario_rnd (- 1)
       \<lparr>prev = scenario_reference, path_structures = scenario_structs, voltage_profile = [],
        draws = 0\<rparr>
     = Inr (scenario_structs ! 1,
            \<lparr>prev = scenario_structs ! 1, path_structures = [scenario_structs ! 0],
             voltage_profile = [], draws = 1\<rparr>, False)
   \<and> walk scenario_rnd (- 1)
       \<lparr>prev = scenario_reference, path_structures = scenario_structs, voltage_profile = [],
        draws = 0\<rparr> []
     = Inr (\<lparr>prev = scenario_structs ! 1, path_structures = [],
             voltage_profile = [(Fin 0, Fin 1)], draws = 2\<rparr>,
            [scenario_structs ! 1, scenario_structs ! 0])"
  by code_simp

section \<open>The hard stop of the sampling loop\<close>

lemma foldl_fadd_ones: "foldl fadd (Fin a) (replicate n (Fin 1)) = Fin (a + real n)"
  by (induction n arbitrary: a) (auto simp: algebra_simps)

lemma fsum_ones: "fsum (replicate n (Fin 1)) = Fin (real n)"
  by (simp add: fsum_def foldl_fadd_ones)

lemma convergence_check_ones:
  "diff_average_profile s = replicate num_divisions (Fin 1) \<Longrightarrow> convergence_check s = Continue s"
  by (simp add: convergence_check_def fsum_ones tolerance_def num_divisions_def)

lemma pick_only_one:
  assumes "num_a m1 = Some a" and "num_a m0 = Some b" and "flt a b"
  shows "pick_metastable_structure rnd [m1] m0 k = Inr (m1, k + 1)"
  using assms
  by (simp add: pick_metastable_structure_def pick_loop.simps [of rnd "[m1]" m0 0 k] randint_def)

text \<open>
  With the reference of \<open>B\<close> as the only structure, every path is the single step from
  the reference cathode to it: the path is delithiated at once and has no segment.
\<close>

lemma walk_only_B:
  assumes "num_a m1 = Some (Fin 0)" and "num_a m0 = Some PInf"
  shows "walk rnd mu0 \<lparr>prev = m0, path_structures = [m1], voltage_profile = [], draws = k\<rparr> []
    = Inr (\<lparr>prev = m0, path_structures = [], voltage_profile = [], draws = k + 1\<rparr>, [m1])"
proof -
  have "pick_metastable_structure rnd [m1] m0 k = Inr (m1, k + 1)"
    using assms by (intro pick_only_one) auto
  then have "walk_step rnd mu0
               \<lparr>prev = m0, path_structures = [m1], voltage_profile = [], draws = k\<rparr>
    = Inr (m1, \<lparr>prev = m0, path_structures = [], voltage_profile = [], draws = k + 1\<rparr>, True)"
    using assms by (simp add: walk_step_def py_index_def field_def feq_def)
  then show ?thesis
    by (simp add: walk.simps
          [of rnd mu0 "\<lparr>prev = m0, path_structures = [m1], voltage_profile = [], draws = k\<rparr>" "[]"])
qed

text \<open>Such a pass changes nothing but the number of draws: \<open>num_contribs\<close> stays \<open>0\<close>.\<close>

lemma trial_only_B:
  assumes "num_a m1 = Some (Fin 0)" and "num_a m0 = Some PInf"
    and "diff_average_profile s = replicate num_divisions (Fin 1)" and "num_contribs s = 0"
  shows "trial rnd mu0 m0 [m1] s = Inr (Continue (s\<lparr>rng_draws := rng_draws s + 1\<rparr>))"
  using assms
  by (simp add: trial_def convergence_check_ones walk_only_B add_profile_def)

lemma sampling_loop_only_B:
  assumes "num_a m1 = Some (Fin 0)" and "num_a m0 = Some PInf"
  shows "diff_average_profile s = replicate num_divisions (Fin 1) \<Longrightarrow> num_contribs s = 0 \<Longrightarrow>
         \<not> converged s \<Longrightarrow> sampling_loop n rnd mu0 m0 [m1] s = None"
proof (induction n arbitrary: s)
  case 0
  then show ?case by simp
next
  case (Suc n)
  have "sampling_loop (Suc n) rnd mu0 m0 [m1] s
          = sampling_loop n rnd mu0 m0 [m1] (s\<lparr>rng_draws := rng_draws s + 1\<rparr>)"
    using Suc.prems by (simp add: trial_only_B [OF assms])
  also have "\<dots> = None"
    using Suc.prems by (intro Suc.IH) simp_all
  finally show ?case .
qed

lemma scenario_unstable_hull_cursor:
  "map_sum id hull_cursor
     (binary_hull scenario_qhull [''A'', ''B''] scenario_A scenario_B (0, 0) 0
        [scenario_unstable])
   = Inr [scenario_B\<lparr>hull_distance := Some (Fin 0), enthalpy_per_b := Some (- 2),
                      num_a := Some (Fin 0)\<rparr>,
          scenario_A\<lparr>hull_distance := Some (Fin 0), enthalpy_per_b := Some (- 1),
                      num_a := Some PInf\<rparr>]"
  by code_simp

text \<open>
  Claim C5. The claim is that the loop ends after at most \<open>num_trials\<close> passes whether or
  not the average converges. The hard stop is \<open>if num_contribs > num_trials: break\<close>, and
  \<open>num_contribs\<close> counts only the paths that have a segment. When the near-hull list is
  the two references alone (no structure within the cutoff), every path is
  reference cathode, \<open>B\<close> and has none, so no number of passes ends the loop, whatever
  the random numbers are.
\<close>

theorem C5_sampling_loop_not_bounded:
  assumes "num_a m1 = Some (Fin 0)" and "num_a m0 = Some PInf"
  shows "metastable_voltage_profile passes rnd get_capacities mu0 [m1, m0] = None"
proof -
  have "sampling_loop passes rnd mu0 m0 [m1\<lparr>capacity := Some (get_capacities (Fin 0))\<rparr>]
          init_sampler = None"
    using assms by (intro sampling_loop_only_B) (simp_all add: init_sampler_def)
  then show ?thesis
    using assms by (simp add: metastable_voltage_profile_def field_def py_get_def)
qed

theorem C5_sampling_loop_not_bounded_witness:
  "map_sum id hull_cursor
     (binary_hull scenario_qhull [''A'', ''B''] scenario_A scenario_B (0, 0) 0
        [scenario_unstable])
   = Inr [scenario_B\<lparr>hull_distance := Some (Fin 0), enthalpy_per_b := Some (- 2),
                      num_a := Some (Fin 0)\<rparr>,
          scenario_A\<lparr>hull_distance := Some (Fin 0), enthalpy_per_b := Some (- 1),
                      num_a := Some PInf\<rparr>]
   \<and> metastable_voltage_profile (num_trials + 2) scenario_rnd scenario_capacities (- 1)
       [scenario_B\<lparr>hull_distance := Some (Fin 0), enthalpy_per_b := Some (- 2),
                    num_a := Some (Fin 0)\<rparr>,
        scenario_A\<lparr>hull_distance := Some (Fin 0), enthalpy_per_b := Some (- 1),
                    num_a := Some PInf\<rparr>] = None"
  using scenario_unstable_hull_cursor
    C5_sampling_loop_not_bounded
      [of "scenario_B\<lparr>hull_distance := Some (Fin 0), enthalpy_per_b := Some (- 2),
                       num_a := Some (Fin 0)\<rparr>"
          "scenario_A\<lparr>hull_distance := Some (Fin 0), enthalpy_per_b := Some (- 1),
                       num_a := Some PInf\<rparr>"
          "num_trials + 2" scenario_rnd scenario_capacities "- 1"]
  by simp

section \<open>The voltage curve\<close>

lemma voltage_loop_eq:
  "j < length epb \<Longrightarrow> j < length nums \<Longrightarrow>
   voltage_loop epb nums mu j (V, x) =
     Inr (V @ map (pair_voltage epb nums mu) (rev [1 ..< Suc j]),
          x @ map (\<lambda>i. nums ! i) (rev [1 ..< Suc j]))"
proof (induction j arbitrary: V x)
  case 0
  then show ?case by simp
next
  case (Suc j)
  then show ?case
    by (simp add: pair_voltage_def)
qed

lemma rev_upt_nth: "k < n - Suc 0 \<Longrightarrow> rev [Suc 0 ..< n] ! k = n - Suc k"
  by (simp add: rev_nth)

text \<open>
  Claim C3, as amended. The claim converts a composition of \<open>1\<close> to \<open>+infinity\<close>;
  \<open>voltage_curve\<close> gives it the number \<open>1e5\<close> (\<open>stable_num_of\<close>). With that number: for at
  least two stable points, with an enthalpy for each and the chemical potential of \<open>A\<close>
  at \<open>mu_enthalpy[0]\<close>, the curve has one entry for each point. Its entry \<open>k\<close>, counted
  from the \<open>A\<close>-richest point \<open>n - 1\<close> down, is the voltage
  \<open>-(E[n-1-k] - E[n-2-k]) / (num[n-1-k] - num[n-2-k]) + mu_enthalpy[0]\<close> at the number
  \<open>num[n-1-k]\<close>; the last entry repeats the voltage before it at the number \<open>0\<close>,
  whose capacity is that of no guest atoms.
\<close>

theorem C3_voltage_curve:
  assumes "2 \<le> length comps" and "length comps \<le> length epb" and "mu \<noteq> []"
  shows "\<exists>V x. voltage_curve get_capacities epb comps mu = Inr (V, x, map get_capacities x)
    \<and> length V = length comps \<and> length x = length comps
    \<and> (\<forall>k < length comps - 1.
          V ! k = fadd (fdiv (Fin (- (epb ! (length comps - 1 - k) - epb ! (length comps - 2 - k))))
                          (Fin (stable_num_of (comps ! (length comps - 1 - k))
                                 - stable_num_of (comps ! (length comps - 2 - k)))))
                    (Fin (mu ! 0))
          \<and> x ! k = stable_num_of (comps ! (length comps - 1 - k)))
    \<and> V ! (length comps - 1) = V ! (length comps - 2)
    \<and> x ! (length comps - 1) = 0
    \<and> map get_capacities x ! (length comps - 1) = get_capacities 0"
proof -
  define n where "n = length comps"
  define nums where "nums = map stable_num_of comps"
  define V0 where "V0 = map (pair_voltage epb nums (mu ! 0)) (rev [1 ..< n])"
  define x0 where "x0 = map (\<lambda>i. nums ! i) (rev [1 ..< n])"
  have n2: "2 \<le> n" and ne: "n \<le> length epb" using assms by (simp_all add: n_def)
  have len: "length V0 = n - 1" "length x0 = n - 1" by (simp_all add: V0_def x0_def)
  have mu0: "py_get mu 0 = Inr (mu ! 0)"
    using assms(3) by (simp add: py_get_def)
  have loop: "voltage_loop epb nums (mu ! 0) (n - 1) ([], []) = Inr (V0, x0)"
  proof -
    have "n - 1 < length epb" "n - 1 < length nums" and s: "Suc (n - 1) = n"
      using n2 ne by (simp_all add: nums_def n_def)
    from voltage_loop_eq [OF this(1,2), of "mu ! 0" "[]" "[]"] show ?thesis
      unfolding s V0_def x0_def by simp
  qed
  have lst: "py_get V0 (- 1) = Inr (V0 ! (n - 2))"
    using n2 len by (auto simp: py_get_def nat_diff_distrib intro!: arg_cong [of _ _ "nth V0"])
  have vc: "voltage_curve get_capacities epb comps mu
              = Inr (V0 @ [V0 ! (n - 2)], x0 @ [0], map get_capacities (x0 @ [0]))"
  proof -
    have ln: "length nums = n" by (simp add: nums_def n_def)
    show ?thesis
      using n2 mu0 loop lst ln
      by (simp add: voltage_curve_def Let_def nums_def [symmetric])
  qed
  have nth: "\<forall>k < n - 1. (V0 @ [V0 ! (n - 2)]) ! k = pair_voltage epb nums (mu ! 0) (n - 1 - k)
               \<and> (x0 @ [0]) ! k = nums ! (n - 1 - k)"
    using len by (auto simp: nth_append V0_def x0_def rev_upt_nth)
  have pv: "\<forall>k < n - 1. pair_voltage epb nums (mu ! 0) (n - 1 - k)
      = fadd (fdiv (Fin (- (epb ! (n - 1 - k) - epb ! (n - 2 - k))))
                          (Fin (stable_num_of (comps ! (n - 1 - k))
                                 - stable_num_of (comps ! (n - 2 - k)))))
                    (Fin (mu ! 0))
      \<and> nums ! (n - 1 - k) = stable_num_of (comps ! (n - 1 - k))"
    by (auto simp: pair_voltage_def nums_def n_def)
  have last2: "(V0 @ [V0 ! (n - 2)]) ! (n - 1) = (V0 @ [V0 ! (n - 2)]) ! (n - 2)"
    "(x0 @ [0]) ! (n - 1) = 0"
    using n2 len by (auto simp: nth_append)
  have B: "length (V0 @ [V0 ! (n - 2)]) = n" "length (x0 @ [0]) = n"
    using n2 len by simp_all
  have C: "\<forall>k < n - 1.
          (V0 @ [V0 ! (n - 2)]) ! k
            = fadd (fdiv (Fin (- (epb ! (n - 1 - k) - epb ! (n - 2 - k))))
                          (Fin (stable_num_of (comps ! (n - 1 - k))
                                 - stable_num_of (comps ! (n - 2 - k)))))
                    (Fin (mu ! 0))
          \<and> (x0 @ [0]) ! k = stable_num_of (comps ! (n - 1 - k))"
  proof (intro allI impI)
    fix k
    assume k: "k < n - 1"
    from nth k have 1: "(V0 @ [V0 ! (n - 2)]) ! k = pair_voltage epb nums (mu ! 0) (n - 1 - k)"
      and 2: "(x0 @ [0]) ! k = nums ! (n - 1 - k)"
      by blast+
    from pv k have 3: "pair_voltage epb nums (mu ! 0) (n - 1 - k)
      = fadd (fdiv (Fin (- (epb ! (n - 1 - k) - epb ! (n - 2 - k))))
                          (Fin (stable_num_of (comps ! (n - 1 - k))
                                 - stable_num_of (comps ! (n - 2 - k)))))
                    (Fin (mu ! 0))"
      and 4: "nums ! (n - 1 - k) = stable_num_of (comps ! (n - 1 - k))"
      by blast+
    show "(V0 @ [V0 ! (n - 2)]) ! k
            = fadd (fdiv (Fin (- (epb ! (n - 1 - k) - epb ! (n - 2 - k))))
                          (Fin (stable_num_of (comps ! (n - 1 - k))
                                 - stable_num_of (comps ! (n - 2 - k)))))
                    (Fin (mu ! 0))
          \<and> (x0 @ [0]) ! k = stable_num_of (comps ! (n - 1 - k))"
      unfolding 1 2 3 4 by (rule conjI; rule refl)
  qed
  have D: "map get_capacities (x0 @ [0]) ! (n - 1) = get_capacities 0"
    using n2 len by (simp add: nth_append)
  show ?thesis
    unfolding n_def [symmetric]
    using vc B C D last2 by blast
qed

theorem C3_voltage_curve_witness:
  "2 \<le> length [0, 1 / 2, 1 :: real]
   \<and> (\<exists>V x. voltage_curve scenario_capacity [- 2, - 4, - 1] [0, 1 / 2, 1] [- 1, - 2]
              = Inr (V, x, map scenario_capacity x)
            \<and> length V = 3 \<and> V ! 2 = V ! 1 \<and> x ! 2 = 0)"
proof -
  have h1: "2 \<le> length [0, 1 / 2, 1 :: real]"
    and h2: "length [0, 1 / 2, 1 :: real] \<le> length [- 2, - 4, - 1 :: real]"
    and h3: "[- 1, - 2 :: real] \<noteq> []"
    by simp_all
  from C3_voltage_curve [OF h1 h2 h3, of scenario_capacity] obtain V x where
    a: "voltage_curve scenario_capacity [- 2, - 4, - 1] [0, 1 / 2, 1] [- 1, - 2]
       = Inr (V, x, map scenario_capacity x)"
    and b: "length V = length [0, 1 / 2, 1 :: real]"
    and c: "V ! (length [0, 1 / 2, 1 :: real] - 1) = V ! (length [0, 1 / 2, 1 :: real] - 2)"
    and d: "x ! (length [0, 1 / 2, 1 :: real] - 1) = 0"
    by blast
  from b have b': "length V = 3" by simp
  from c have c': "V ! 2 = V ! 1" by (simp add: numeral_2_eq_2)
  from d have d': "x ! 2 = 0" by (simp add: numeral_2_eq_2)
  from h1 a b' c' d' show ?thesis by blast
qed

text \<open>
  The claim as stated fails on the stable points of the scenario, at compositions
  \<open>0\<close>, \<open>1/2\<close>, \<open>1\<close>. The first number of the curve is \<open>1e5\<close> where the claim has
  \<open>+infinity\<close>, and the first voltage is \<open>-33334/33333\<close> where the claim's formula gives
  \<open>-1\<close>. For a single stable point there is no curve: reading the last voltage raises.
\<close>

theorem C3_counterexample:
  "voltage_curve scenario_capacity (stable_enthalpy_per_b scenario_result)
       (stable_comp scenario_result) (mu_enthalpy scenario_result)
     = Inr ([Fin (- (33334 / 33333)), Fin 1, Fin 1], [100000, 1, 0], [100000000, 1000, 0])
   \<and> spec_num_a (stable_comp scenario_result ! 2) = PInf
   \<and> fadd (fdiv (Fin (- (stable_enthalpy_per_b scenario_result ! 2
                             - stable_enthalpy_per_b scenario_result ! 1)))
               (fsub (spec_num_a (stable_comp scenario_result ! 2))
                     (spec_num_a (stable_comp scenario_result ! 1))))
          (Fin (mu_enthalpy scenario_result ! 0))
       = Fin (- 1)
   \<and> voltage_curve scenario_capacity [- 2] [0] [- 1, - 2] = Inl IndexError"
  by code_simp

section \<open>Convex closures\<close>

lemma mix_nonneg:
  fixes a b t :: real
  assumes "0 \<le> a" "0 \<le> b" "0 \<le> t" "t \<le> 1"
  shows "0 \<le> (1 - t) * a + t * b"
  using assms by simp

lemma mix_pos:
  fixes a b t :: real
  assumes "0 < a" "0 < b" "0 \<le> t" "t \<le> 1"
  shows "0 < (1 - t) * a + t * b"
proof (cases "t = 0")
  case True
  with assms show ?thesis by simp
next
  case False
  with assms have "0 < t * b" by simp
  moreover have "0 \<le> (1 - t) * a" using assms by simp
  ultimately show ?thesis by linarith
qed

text \<open>A half-plane that holds a set holds its convex closure.\<close>

lemma convex_closure_halfplane:
  assumes "p \<in> convex_closure S"
    and "\<forall>s \<in> S. 0 \<le> \<alpha> * fst s + \<beta> * snd s + \<gamma>"
  shows "0 \<le> \<alpha> * fst p + \<beta> * snd p + \<gamma>"
  using assms
proof (induction rule: convex_closure.induct)
  case (base p)
  then show ?case by simp
next
  case (mix p q t)
  have "\<alpha> * ((1 - t) * fst p + t * fst q) + \<beta> * ((1 - t) * snd p + t * snd q) + \<gamma>
      = (1 - t) * (\<alpha> * fst p + \<beta> * snd p + \<gamma>) + t * (\<alpha> * fst q + \<beta> * snd q + \<gamma>)"
    by (simp add: algebra_simps)
  with mix mix_nonneg [of "\<alpha> * fst p + \<beta> * snd p + \<gamma>" "\<alpha> * fst q + \<beta> * snd q + \<gamma>" t]
  show ?case by simp
qed

lemma convex_closure_open_halfplane:
  assumes "p \<in> convex_closure S"
    and "\<forall>s \<in> S. 0 < \<alpha> * fst s + \<beta> * snd s + \<gamma>"
  shows "0 < \<alpha> * fst p + \<beta> * snd p + \<gamma>"
  using assms
proof (induction rule: convex_closure.induct)
  case (base p)
  then show ?case by simp
next
  case (mix p q t)
  have "\<alpha> * ((1 - t) * fst p + t * fst q) + \<beta> * ((1 - t) * snd p + t * snd q) + \<gamma>
      = (1 - t) * (\<alpha> * fst p + \<beta> * snd p + \<gamma>) + t * (\<alpha> * fst q + \<beta> * snd q + \<gamma>)"
    by (simp add: algebra_simps)
  with mix mix_pos [of "\<alpha> * fst p + \<beta> * snd p + \<gamma>" "\<alpha> * fst q + \<beta> * snd q + \<gamma>" t]
  show ?case by simp
qed

text \<open>A point of the segment between two points, given by its abscissa.\<close>

lemma segment_point:
  assumes "a \<in> convex_closure S" and "b \<in> convex_closure S"
    and "fst a < fst b" and "fst a \<le> x" and "x \<le> fst b"
  shows "(x, snd a + (snd b - snd a) * (x - fst a) / (fst b - fst a)) \<in> convex_closure S"
proof -
  define t where "t = (x - fst a) / (fst b - fst a)"
  have t: "0 \<le> t" "t \<le> 1" using assms by (simp_all add: t_def)
  have "t * (fst b - fst a) = x - fst a"
    using assms(3) by (simp add: t_def)
  moreover have "(1 - t) * fst a + t * fst b = fst a + t * (fst b - fst a)"
    by (simp add: algebra_simps)
  ultimately have "(1 - t) * fst a + t * fst b = x"
    by simp
  moreover have "(1 - t) * snd a + t * snd b = snd a + (snd b - snd a) * t"
    by (simp add: algebra_simps)
  moreover have "(snd b - snd a) * t = (snd b - snd a) * (x - fst a) / (fst b - fst a)"
    by (simp add: t_def)
  ultimately show ?thesis
    using convex_closure.mix [OF assms(1,2) t] by simp
qed

text \<open>A point on the vertical segment between two points of the closure.\<close>

lemma vertical_point:
  assumes "(x, y0) \<in> convex_closure S" and "(x, y1) \<in> convex_closure S"
    and "y0 \<le> y" and "y \<le> y1"
  shows "(x, y) \<in> convex_closure S"
proof (cases "y0 = y1")
  case True
  with assms show ?thesis by simp
next
  case False
  define t where "t = (y - y0) / (y1 - y0)"
  have lt: "y0 < y1" using assms False by simp
  then have t: "0 \<le> t" "t \<le> 1" using assms by (simp_all add: t_def)
  have "t * (y1 - y0) = y - y0"
    using lt by (simp add: t_def)
  moreover have "(1 - t) * y0 + t * y1 = y0 + t * (y1 - y0)"
    by (simp add: algebra_simps)
  ultimately have "(1 - t) * y0 + t * y1 = y"
    by simp
  moreover have "(1 - t) * x + t * x = x" by (simp add: algebra_simps)
  ultimately show ?thesis
    using convex_closure.mix [OF assms(1,2) t] by simp
qed

lemma chord_point:
  assumes "(0, 0) \<in> S" and "(1, 0) \<in> S" and "0 \<le> x" and "x \<le> 1"
  shows "(x, 0) \<in> convex_closure S"
  using segment_point [of "(0, 0)" S "(1, 0)" x] assms
  by (simp add: convex_closure.base)

text \<open>
  A point that is not above the chord and not below a point of the closure of the
  others is in that closure: it is no vertex.
\<close>

lemma sandwiched_not_extreme:
  assumes q: "(fst v, y0) \<in> convex_closure (P - {v})"
    and "y0 \<le> snd v" and "snd v \<le> 0" and "0 < fst v" and "fst v < 1"
    and "(0, 0) \<in> P" and "(1, 0) \<in> P"
  shows "v \<in> convex_closure (P - {v})"
proof -
  have "(0, 0) \<in> P - {v}" "(1, 0) \<in> P - {v}"
    using assms by auto
  then have "(fst v, 0) \<in> convex_closure (P - {v})"
    using assms by (intro chord_point) auto
  from vertical_point [OF q this, of "snd v"] assms show ?thesis
    by simp
qed

section \<open>The lower edges of the hull\<close>

text \<open>
  Two vertices that are not above the chord from \<open>(0, 0)\<close> to \<open>(1, 0)\<close>, with no such
  vertex between them: no vertex is below the line through them. Otherwise one of the
  two would lie between a point of the closure of the others and the chord.
\<close>

lemma lower_edge_supports_vertices:
  assumes ext: "\<forall>v \<in> V. v \<notin> convex_closure (P - {v})"
    and VP: "V \<subseteq> P"
    and O: "(0, 0) \<in> P" and E: "(1, 0) \<in> P"
    and range: "\<forall>p \<in> P. 0 \<le> fst p \<and> fst p \<le> 1"
    and ends: "\<forall>p \<in> P. (fst p = 0 \<longrightarrow> p = (0, 0)) \<and> (fst p = 1 \<longrightarrow> p = (1, 0))"
    and a: "a \<in> V" "snd a \<le> 0" and b: "b \<in> V" "snd b \<le> 0" and ab: "fst a < fst b"
    and adj: "\<forall>c \<in> V. snd c \<le> 0 \<longrightarrow> \<not> (fst a < fst c \<and> fst c < fst b)"
    and c: "c \<in> V"
  shows "0 \<le> cross a b c"
proof (rule ccontr)
  assume "\<not> 0 \<le> cross a b c"
  then have neg: "cross a b c < 0" by simp
  have aP: "a \<in> P" and bP: "b \<in> P" and cP: "c \<in> P" using a b c VP by auto
  have ra: "0 \<le> fst a" "fst a \<le> 1" and rb: "0 \<le> fst b" "fst b \<le> 1"
    and rc: "0 \<le> fst c" "fst c \<le> 1"
    using range aP bP cP by auto
  consider (inside) "fst a < fst c" "fst c < fst b"
    | (at_a) "fst c = fst a" | (at_b) "fst c = fst b"
    | (left) "fst c < fst a" | (right) "fst b < fst c"
    by linarith
  then show False
  proof cases
    case inside
    have "(fst b - fst a) * snd c < (fst b - fst a) * snd a + (snd b - snd a) * (fst c - fst a)"
      using neg by (simp add: cross_def algebra_simps)
    also have "\<dots> = (fst b - fst c) * snd a + (fst c - fst a) * snd b"
      by (simp add: algebra_simps)
    also have "\<dots> \<le> 0"
    proof -
      have "(fst b - fst c) * snd a \<le> 0"
        using inside a(2) by (intro mult_nonneg_nonpos) auto
      moreover have "(fst c - fst a) * snd b \<le> 0"
        using inside b(2) by (intro mult_nonneg_nonpos) auto
      ultimately show ?thesis by simp
    qed
    finally have "(fst b - fst a) * snd c < 0" .
    with ab have "snd c < 0"
      by (simp add: mult_less_0_iff)
    with adj c inside show False by auto
  next
    case at_a
    with neg have "(fst b - fst a) * (snd c - snd a) < 0"
      by (simp add: cross_def)
    with ab have lt: "snd c < snd a"
      by (simp add: mult_less_0_iff)
    then have ne: "c \<noteq> a" by auto
    have "fst a \<noteq> 0"
    proof
      assume "fst a = 0"
      then have "fst c = 0" using at_a by simp
      with ends cP have "c = (0, 0)" by blast
      moreover from ends aP \<open>fst a = 0\<close> have "a = (0, 0)" by blast
      ultimately show False using ne by simp
    qed
    with ra ab rb have r: "0 < fst a" "fst a < 1" by auto
    have "c \<in> convex_closure (P - {a})"
      using cP ne by (auto intro: convex_closure.base)
    then have "(fst a, snd c) \<in> convex_closure (P - {a})"
      using at_a by (metis prod.collapse)
    from sandwiched_not_extreme [OF this _ a(2) r O E] lt
    have "a \<in> convex_closure (P - {a})" by simp
    with ext a(1) show False by blast
  next
    case at_b
    have "cross a b c = (fst b - fst a) * (snd c - snd b)"
      using at_b by (simp add: cross_def algebra_simps)
    with neg ab have lt: "snd c < snd b"
      by (simp add: mult_less_0_iff)
    then have ne: "c \<noteq> b" by auto
    have "fst b \<noteq> 1"
    proof
      assume "fst b = 1"
      then have "fst c = 1" using at_b by simp
      with ends cP have "c = (1, 0)" by blast
      moreover from ends bP \<open>fst b = 1\<close> have "b = (1, 0)" by blast
      ultimately show False using ne by simp
    qed
    with ra ab rb have r: "0 < fst b" "fst b < 1" by auto
    have "c \<in> convex_closure (P - {b})"
      using cP ne by (auto intro: convex_closure.base)
    then have "(fst b, snd c) \<in> convex_closure (P - {b})"
      using at_b by (metis prod.collapse)
    from sandwiched_not_extreme [OF this _ b(2) r O E] lt
    have "b \<in> convex_closure (P - {b})" by simp
    with ext b(1) show False by blast
  next
    case left
    have r: "0 < fst a" "fst a < 1" using left rc ab rb by auto
    have cb: "fst c < fst b" using left ab by simp
    have "c \<in> convex_closure (P - {a})" "b \<in> convex_closure (P - {a})"
      using cP bP left ab by (auto intro: convex_closure.base)
    from segment_point [OF this cb, of "fst a"] left ab
    have m: "(fst a, snd c + (snd b - snd c) * (fst a - fst c) / (fst b - fst c))
               \<in> convex_closure (P - {a})"
      by simp
    have "(snd a - snd c) * (fst b - fst c) - (snd b - snd c) * (fst a - fst c) = - cross a b c"
      by (simp add: cross_def algebra_simps)
    with neg have "(snd b - snd c) * (fst a - fst c) \<le> (snd a - snd c) * (fst b - fst c)"
      by simp
    with cb have "(snd b - snd c) * (fst a - fst c) / (fst b - fst c) \<le> snd a - snd c"
      by (simp add: pos_divide_le_eq)
    then have "snd c + (snd b - snd c) * (fst a - fst c) / (fst b - fst c) \<le> snd a"
      by simp
    from sandwiched_not_extreme [OF m this a(2) r O E]
    have "a \<in> convex_closure (P - {a})" .
    with ext a(1) show False by blast
  next
    case right
    have r: "0 < fst b" "fst b < 1" using right rc ab ra by auto
    have ac: "fst a < fst c" using right ab by simp
    have "a \<in> convex_closure (P - {b})" "c \<in> convex_closure (P - {b})"
      using cP aP right ab by (auto intro: convex_closure.base)
    from segment_point [OF this ac, of "fst b"] right ab
    have m: "(fst b, snd a + (snd c - snd a) * (fst b - fst a) / (fst c - fst a))
               \<in> convex_closure (P - {b})"
      by simp
    have "(snd b - snd a) * (fst c - fst a) - (snd c - snd a) * (fst b - fst a) = - cross a b c"
      by (simp add: cross_def algebra_simps)
    with neg have "(snd c - snd a) * (fst b - fst a) \<le> (snd b - snd a) * (fst c - fst a)"
      by simp
    with ac have "(snd c - snd a) * (fst b - fst a) / (fst c - fst a) \<le> snd b - snd a"
      by (simp add: pos_divide_le_eq)
    then have "snd a + (snd c - snd a) * (fst b - fst a) / (fst c - fst a) \<le> snd b"
      by simp
    from sandwiched_not_extreme [OF m this b(2) r O E]
    have "b \<in> convex_closure (P - {b})" .
    with ext b(1) show False by blast
  qed
qed

lemma lower_edge_supports_points:
  assumes hull: "\<forall>p \<in> P. p \<in> convex_closure V"
    and ext: "\<forall>v \<in> V. v \<notin> convex_closure (P - {v})"
    and VP: "V \<subseteq> P"
    and O: "(0, 0) \<in> P" and E: "(1, 0) \<in> P"
    and range: "\<forall>p \<in> P. 0 \<le> fst p \<and> fst p \<le> 1"
    and ends: "\<forall>p \<in> P. (fst p = 0 \<longrightarrow> p = (0, 0)) \<and> (fst p = 1 \<longrightarrow> p = (1, 0))"
    and a: "a \<in> V" "snd a \<le> 0" and b: "b \<in> V" "snd b \<le> 0" and ab: "fst a < fst b"
    and adj: "\<forall>c \<in> V. snd c \<le> 0 \<longrightarrow> \<not> (fst a < fst c \<and> fst c < fst b)"
    and p: "p \<in> P"
  shows "0 \<le> cross a b p"
proof -
  have "\<forall>c \<in> V. 0 \<le> (- (snd b - snd a)) * fst c + (fst b - fst a) * snd c
                      + ((snd b - snd a) * fst a - (fst b - fst a) * snd a)"
  proof
    fix c
    assume "c \<in> V"
    from lower_edge_supports_vertices [OF ext VP O E range ends a b ab adj this]
    show "0 \<le> (- (snd b - snd a)) * fst c + (fst b - fst a) * snd c
                      + ((snd b - snd a) * fst a - (fst b - fst a) * snd a)"
      by (simp add: cross_def algebra_simps)
  qed
  from convex_closure_halfplane [OF _ this, of p] hull p
  show ?thesis
    by (simp add: cross_def algebra_simps)
qed

section \<open>The search for the bracketing pair\<close>

lemma bisect_loop_spec:
  assumes "sorted a" and "lo \<le> hi" and "hi \<le> length a"
    and "\<forall>j < lo. a ! j < x" and "\<forall>j. hi \<le> j \<and> j < length a \<longrightarrow> x \<le> a ! j"
  shows "bisect_loop a x lo hi \<le> length a
    \<and> (\<forall>j < bisect_loop a x lo hi. a ! j < x)
    \<and> (\<forall>j. bisect_loop a x lo hi \<le> j \<and> j < length a \<longrightarrow> x \<le> a ! j)"
  using assms
proof (induction a x lo hi rule: bisect_loop.induct)
  case (1 a x lo hi)
  show ?case
  proof (cases "lo < hi")
    case False
    then have r: "bisect_loop a x lo hi = lo"
      by (simp add: bisect_loop.simps [of a x lo hi])
    from False "1.prems" have "lo = hi" by simp
    with "1.prems" show ?thesis
      unfolding r by simp
  next
    case True
    define mid where "mid = (lo + hi) div 2"
    have mid: "lo \<le> mid" "mid < hi" using True by (simp_all add: mid_def)
    show ?thesis
    proof (cases "a ! mid < x")
      case lt: True
      have "\<forall>j < mid + 1. a ! j < x"
      proof (intro allI impI)
        fix j
        assume "j < mid + 1"
        then have "a ! j \<le> a ! mid"
          using "1.prems"(1,3) mid by (intro sorted_nth_mono) auto
        with lt show "a ! j < x" by simp
      qed
      with "1.IH"(1) [OF True mid_def lt]
           "1.prems" mid
      have "bisect_loop a x (mid + 1) hi \<le> length a
        \<and> (\<forall>j < bisect_loop a x (mid + 1) hi. a ! j < x)
        \<and> (\<forall>j. bisect_loop a x (mid + 1) hi \<le> j \<and> j < length a \<longrightarrow> x \<le> a ! j)"
        by (simp add: mid_def)
      moreover have "bisect_loop a x lo hi = bisect_loop a x (mid + 1) hi"
        using True lt by (simp add: bisect_loop.simps [of a x lo hi] mid_def Let_def)
      ultimately show ?thesis by simp
    next
      case ge: False
      have "\<forall>j. mid \<le> j \<and> j < length a \<longrightarrow> x \<le> a ! j"
      proof (intro allI impI)
        fix j
        assume "mid \<le> j \<and> j < length a"
        then have "a ! mid \<le> a ! j"
          using "1.prems"(1) by (intro sorted_nth_mono) auto
        with ge show "x \<le> a ! j" by simp
      qed
      with "1.IH"(2) [OF True mid_def ge]
           "1.prems" mid
      have "bisect_loop a x lo mid \<le> length a
        \<and> (\<forall>j < bisect_loop a x lo mid. a ! j < x)
        \<and> (\<forall>j. bisect_loop a x lo mid \<le> j \<and> j < length a \<longrightarrow> x \<le> a ! j)"
        by (simp add: mid_def)
      moreover have "bisect_loop a x lo hi = bisect_loop a x lo mid"
        using True ge by (simp add: bisect_loop.simps [of a x lo hi] mid_def Let_def)
      ultimately show ?thesis by simp
    qed
  qed
qed

lemma bisect_left_spec:
  assumes "sorted a"
  shows "bisect_left a x \<le> length a
    \<and> (\<forall>j < bisect_left a x. a ! j < x)
    \<and> (\<forall>j. bisect_left a x \<le> j \<and> j < length a \<longrightarrow> x \<le> a ! j)"
  unfolding bisect_left_def
  using assms by (intro bisect_loop_spec) auto

lemma py_get_nat: "i < length xs \<Longrightarrow> py_get xs (int i) = Inr (xs ! i)"
  by (simp add: py_get_def)

lemma py_get_pred: "0 < i \<Longrightarrow> i \<le> length xs \<Longrightarrow> py_get xs (int i - 1) = Inr (xs ! (i - 1))"
  by (auto simp: py_get_def nat_diff_distrib intro!: arg_cong [of _ _ "nth xs"])

lemma py_get_last: "xs \<noteq> [] \<Longrightarrow> py_get xs (- 1) = Inr (xs ! (length xs - 1))"
  by (cases xs) (auto simp: py_get_def)

text \<open>The distance to the line through two points of different abscissa.\<close>

lemma line_distance:
  assumes "ca \<noteq> cb"
  shows "fsub (Fin y)
           (fadd (fmul (fdiv (Fin (eb - ea)) (Fin (cb - ca))) (Fin x))
                 (fdiv (fsub (Fin (eb + ea))
                          (fmul (fdiv (Fin (eb - ea)) (Fin (cb - ca))) (Fin (cb + ca))))
                       (Fin 2)))
         = Fin (cross (ca, ea) (cb, eb) (x, y) / (cb - ca))"
proof -
  define D where "D = cb - ca"
  define g where "g = (eb - ea) / D"
  have d: "D \<noteq> 0" using assms by (simp add: D_def)
  then have gD: "g * D = eb - ea" by (simp add: g_def)
  have "(y - (g * x + ((eb + ea) - g * (cb + ca)) / 2)) * D
          = D * y - (g * D) * x - D * (eb + ea) / 2 + (g * D) * (cb + ca) / 2"
    by (simp add: field_simps)
  also have "\<dots> = D * y - (eb - ea) * x - D * (eb + ea) / 2 + (eb - ea) * (cb + ca) / 2"
    by (simp only: gD)
  also have "\<dots> = cross (ca, ea) (cb, eb) (x, y)"
    by (simp add: cross_def D_def field_simps)
  finally have "y - (g * x + ((eb + ea) - g * (cb + ca)) / 2)
                  = cross (ca, ea) (cb, eb) (x, y) / D"
    using d by (simp add: nonzero_eq_divide_eq)
  with d show ?thesis
    by (simp add: fsub_def g_def D_def)
qed

lemma ends_are_vertices:
  assumes hull: "\<forall>p \<in> P. p \<in> convex_closure V" and VP: "V \<subseteq> P"
    and O: "(0, 0) \<in> P" and E: "(1, 0) \<in> P"
    and range: "\<forall>p \<in> P. 0 \<le> fst p \<and> fst p \<le> 1"
    and ends: "\<forall>p \<in> P. (fst p = 0 \<longrightarrow> p = (0, 0)) \<and> (fst p = 1 \<longrightarrow> p = (1, 0))"
  shows "(0, 0) \<in> V" and "(1, 0) \<in> V"
proof -
  show "(0, 0) \<in> V"
  proof (rule ccontr)
    assume no: "(0, 0) \<notin> V"
    have "\<forall>v \<in> V. 0 < 1 * fst v + 0 * snd v + 0"
    proof
      fix v assume v: "v \<in> V"
      with VP range have "0 \<le> fst v" by auto
      moreover have "fst v \<noteq> 0" using ends v VP no by auto
      ultimately show "0 < 1 * fst v + 0 * snd v + 0" by simp
    qed
    from convex_closure_open_halfplane [OF _ this, of "(0, 0)"] hull O
    show False by auto
  qed
  show "(1, 0) \<in> V"
  proof (rule ccontr)
    assume no: "(1, 0) \<notin> V"
    have "\<forall>v \<in> V. 0 < (- 1) * fst v + 0 * snd v + 1"
    proof
      fix v assume v: "v \<in> V"
      with VP range have "fst v \<le> 1" by auto
      moreover have "fst v \<noteq> 1" using ends v VP no by auto
      ultimately show "0 < (- 1) * fst v + 0 * snd v + 1" by simp
    qed
    from convex_closure_open_halfplane [OF _ this, of "(1, 0)"] hull E
    show False by auto
  qed
qed

text \<open>
  The body of the distance loop, for the lower vertices in the order of their
  compositions: the distance of a point is finite and not negative, and zero for a
  lower vertex.
\<close>

lemma hull_dist_at_nonneg:
  assumes hull: "\<forall>p \<in> P. p \<in> convex_closure V"
    and ext: "\<forall>v \<in> V. v \<notin> convex_closure (P - {v})"
    and VP: "V \<subseteq> P"
    and O: "(0, 0) \<in> P" and E: "(1, 0) \<in> P"
    and range: "\<forall>p \<in> P. 0 \<le> fst p \<and> fst p \<le> 1"
    and ends: "\<forall>p \<in> P. (fst p = 0 \<longrightarrow> p = (0, 0)) \<and> (fst p = 1 \<longrightarrow> p = (1, 0))"
    and srt: "sorted (map fst Lp)"
    and Lp: "set Lp = {v \<in> V. snd v \<le> 0}"
    and p: "p \<in> P"
  shows "\<exists>d. hull_dist_at (map fst Lp) (map snd Lp) p = Inr (Fin d) \<and> 0 \<le> d
           \<and> (p \<in> V \<and> snd p \<le> 0 \<longrightarrow> d = 0)"
proof -
  define n where "n = length Lp"
  define i where "i = bisect_left (map fst Lp) (fst p)"
  from bisect_left_spec [OF srt, of "fst p"]
  have i_le: "i \<le> n"
    and below: "\<forall>j < i. fst (Lp ! j) < fst p"
    and above: "\<forall>j. i \<le> j \<and> j < n \<longrightarrow> fst p \<le> fst (Lp ! j)"
    by (auto simp: i_def n_def)
  have OV: "(0, 0) \<in> V" and EV: "(1, 0) \<in> V"
    using ends_are_vertices [OF hull VP O E range ends] by simp_all
  then have "(0, 0) \<in> set Lp" "(1, 0) \<in> set Lp"
    using Lp by auto
  then obtain jO jE where jO: "jO < n" "Lp ! jO = (0, 0)" and jE: "jE < n" "Lp ! jE = (1, 0)"
    by (auto simp: in_set_conv_nth n_def)
  have inP: "\<forall>j < n. Lp ! j \<in> V \<and> Lp ! j \<in> P \<and> snd (Lp ! j) \<le> 0"
    using Lp VP by (auto simp: n_def dest!: nth_mem)
  have mono: "\<forall>j k. j \<le> k \<and> k < n \<longrightarrow> fst (Lp ! j) \<le> fst (Lp ! k)"
    using srt by (auto simp: n_def sorted_iff_nth_mono)
  show ?thesis
  proof (cases "fst p = 0")
    case True
    with ends p have p0: "p = (0, 0)" by auto
    have i0: "i = 0"
    proof (rule ccontr)
      assume "i \<noteq> 0"
      with below have "fst (Lp ! 0) < 0" using True by auto
      moreover have "0 \<le> fst (Lp ! 0)"
        using inP range jO(1) by auto
      ultimately show False by simp
    qed
    have first: "Lp ! 0 = (0, 0)"
    proof -
      have "fst (Lp ! 0) \<le> fst (Lp ! jO)" using mono jO(1) by auto
      moreover have "0 \<le> fst (Lp ! 0)" using inP range jO(1) by auto
      ultimately have "fst (Lp ! 0) = 0" using jO(2) by simp
      with ends inP jO(1) show ?thesis by auto
    qed
    have last: "Lp ! (n - 1) = (1, 0)"
    proof -
      have "fst (Lp ! jE) \<le> fst (Lp ! (n - 1))" using mono jE(1) by auto
      moreover have "fst (Lp ! (n - 1)) \<le> 1" using inP range jE(1) by auto
      ultimately have "fst (Lp ! (n - 1)) = 1" using jE(2) by simp
      with ends inP jE(1) show ?thesis by auto
    qed
    have ne: "Lp \<noteq> []" using jO(1) by (auto simp: n_def)
    have g: "py_get (map snd Lp) (- 1) = Inr 0" "py_get (map snd Lp) 0 = Inr 0"
      "py_get (map fst Lp) (- 1) = Inr 1" "py_get (map fst Lp) 0 = Inr 0"
      using ne first last jO(1) py_get_nat [of 0 "map snd Lp"] py_get_nat [of 0 "map fst Lp"]
      by (simp_all add: py_get_last n_def)
    have "hull_dist_at (map fst Lp) (map snd Lp) p = Inr (Fin 0)"
      unfolding hull_dist_at_def Let_def i_def [symmetric] i0
      using g p0 by (simp add: fsub_def)
    then show ?thesis by auto
  next
    case False
    with range p have pos: "0 < fst p" by auto
    have i1: "0 < i"
    proof (rule ccontr)
      assume "\<not> 0 < i"
      with above jO have "fst p \<le> 0" by auto
      with pos show False by simp
    qed
    have iE: "i < n"
    proof (rule ccontr)
      assume "\<not> i < n"
      with i_le jE below have "1 < fst p" by auto
      with range p show False by auto
    qed
    define a where "a = Lp ! (i - 1)"
    define b where "b = Lp ! i"
    have a: "a \<in> V" "snd a \<le> 0" and b: "b \<in> V" "snd b \<le> 0"
      using inP i1 iE by (auto simp: a_def b_def)
    have ap: "fst a < fst p" and pb: "fst p \<le> fst b"
      using below above i1 iE by (auto simp: a_def b_def)
    then have ab: "fst a < fst b" by simp
    have adj: "\<forall>c \<in> V. snd c \<le> 0 \<longrightarrow> \<not> (fst a < fst c \<and> fst c < fst b)"
    proof (intro ballI impI)
      fix c assume "c \<in> V" "snd c \<le> 0"
      then have "c \<in> set Lp" using Lp by auto
      then obtain j where j: "j < n" "Lp ! j = c"
        by (auto simp: in_set_conv_nth n_def)
      show "\<not> (fst a < fst c \<and> fst c < fst b)"
      proof (cases "j < i")
        case True
        then have "j \<le> i - 1 \<and> i - 1 < n" using iE by arith
        with mono have "fst (Lp ! j) \<le> fst (Lp ! (i - 1))"
          by blast
        with j show ?thesis by (simp add: a_def)
      next
        case False
        then have "i \<le> j \<and> j < n" using j(1) by arith
        with mono have "fst (Lp ! i) \<le> fst (Lp ! j)"
          by blast
        with j show ?thesis by (simp add: b_def)
      qed
    qed
    from lower_edge_supports_points [OF hull ext VP O E range ends a b ab adj p]
    have cr: "0 \<le> cross a b p" .
    have g: "py_get (map snd Lp) (int i - 1) = Inr (snd a)" "py_get (map snd Lp) (int i) = Inr (snd b)"
      "py_get (map fst Lp) (int i - 1) = Inr (fst a)" "py_get (map fst Lp) (int i) = Inr (fst b)"
      using i1 iE by (simp_all add: py_get_pred py_get_nat n_def a_def b_def)
    have ne: "fst a \<noteq> fst b" using ab by simp
    have "hull_dist_at (map fst Lp) (map snd Lp) p
            = Inr (Fin (cross (fst a, snd a) (fst b, snd b) (fst p, snd p) / (fst b - fst a)))"
      unfolding hull_dist_at_def Let_def i_def [symmetric]
      using g line_distance [OF ne, of "snd p" "snd b" "snd a" "fst p"]
      by simp
    moreover have "0 \<le> cross a b p / (fst b - fst a)"
      using cr ab by simp
    moreover have "cross a b p / (fst b - fst a) = 0" if pV: "p \<in> V" "snd p \<le> 0"
    proof -
      from pV have "p \<in> set Lp" using Lp by auto
      then obtain j where j: "j < n" "Lp ! j = p"
        by (auto simp: in_set_conv_nth n_def)
      have "\<not> j < i" using below j(2) by auto
      then have "i \<le> j \<and> j < n" using j(1) by arith
      with mono have "fst (Lp ! i) \<le> fst (Lp ! j)" by blast
      with j(2) pb have eq: "fst b = fst p" by (simp add: b_def)
      have adj': "\<forall>c \<in> V. snd c \<le> 0 \<longrightarrow> \<not> (fst a < fst c \<and> fst c < fst p)"
        using adj eq by simp
      from lower_edge_supports_vertices [OF ext VP O E range ends a pV ap adj' b(1)]
      have "0 \<le> cross a p b" .
      then have "0 \<le> (fst b - fst a) * (snd b - snd p)"
        using eq by (simp add: cross_def algebra_simps)
      with ab have 1: "snd p \<le> snd b"
        by (simp add: zero_le_mult_iff)
      from cr have "0 \<le> (fst b - fst a) * (snd p - snd b)"
        using eq by (simp add: cross_def algebra_simps)
      with ab have 2: "snd b \<le> snd p"
        by (simp add: zero_le_mult_iff)
      from 1 2 eq have "cross a b p = 0"
        by (simp add: cross_def)
      then show ?thesis by simp
    qed
    ultimately show ?thesis by auto
  qed
qed

section \<open>The distances that \<open>binary_hull\<close> computes\<close>

lemma structure_rows_nth:
  "structure_rows x_elem b_elem match cur = Inr rs \<Longrightarrow>
   length rs = length cur
   \<and> (\<forall>i < length cur. structure_row x_elem b_elem match (cur ! i) = Inr (rs ! i))"
proof (induction cur arbitrary: rs)
  case Nil
  then show ?case by simp
next
  case (Cons d ds)
  from Cons.prems obtain r rs' where r: "structure_row x_elem b_elem match d = Inr r"
    and rs': "structure_rows x_elem b_elem match ds = Inr rs'" and rs: "rs = r # rs'"
    by (auto simp: ebind_eq_Inr)
  from Cons.IH [OF rs'] r rs show ?case
    by (auto simp: nth_Cons split: nat.splits)
qed

lemma binary_record_stoich:
  assumes "binary_record x_elem d" and "structure_row x_elem b_elem match d = Inr r"
  shows "0 < row_stoich r \<and> row_stoich r < 1"
proof -
  from assms(1) obtain e0 n0 e1 n1 where s: "stoichiometry d = [(e0, n0), (e1, n1)]"
    and n: "0 < n0" "0 < n1" and m: "py_in x_elem e0 \<or> py_in x_elem e1"
    by (auto simp: binary_record_def)
  from assms(2) s have "row_stoich r
      = fst (stoich_loop x_elem (n0 + n1) [(e0, n0), (e1, n1)]
               (0, d\<lparr>enthalpy_per_b := Some (enthalpy d / real (
                  (if e0 = b_elem then n0 else n1) * num_fu d))\<rparr>))"
    by (auto simp: structure_row_def Let_def ebind_eq_Inr split: if_splits prod.splits)
  with n m show ?thesis
    by (auto simp: Let_def)
qed

lemma hull_dists_nth:
  "hull_dists comps energies ps = Inr ds \<Longrightarrow>
   length ds = length ps \<and> (\<forall>i < length ps. hull_dist_at comps energies (ps ! i) = Inr (ds ! i))"
proof (induction ps arbitrary: ds)
  case Nil
  then show ?case by simp
next
  case (Cons p ps)
  from Cons.prems obtain h hs where h: "hull_dist_at comps energies p = Inr h"
    and hs: "hull_dists comps energies ps = Inr hs" and ds: "ds = h # hs"
    by (auto simp: ebind_eq_Inr)
  from Cons.IH [OF hs] h ds show ?case
    by (auto simp: nth_Cons split: nat.splits)
qed

lemma binary_hull_unfold:
  assumes "binary_hull qhull [x_elem, b_elem] match0 match1 mu_volume cutoff cur = Inr r"
  shows "\<exists>rs vs.
      structure_rows x_elem b_elem [match0, match1] cur = Inr rs
    \<and> structures r = (0, 0) # zip (map row_stoich rs) (map row_formation rs) @ [(1, 0)]
    \<and> qhull (structures r) = Inr vs
    \<and> hull_comp r
        = map fst (argsort_comp (lower_vertices (structures r)
            (enthalpy_per_atom match1 # map row_enthalpy rs @ [enthalpy_per_atom match0])
            (snd mu_volume # map row_volume rs @ [fst mu_volume]) vs))
    \<and> hull_energy r
        = map (\<lambda>(c, e, h, v). e) (argsort_comp (lower_vertices (structures r)
            (enthalpy_per_atom match1 # map row_enthalpy rs @ [enthalpy_per_atom match0])
            (snd mu_volume # map row_volume rs @ [fst mu_volume]) vs))
    \<and> hull_dists (hull_comp r) (hull_energy r) (structures r) = Inr (hull_dist r)"
  using assms
  by (auto simp: binary_hull_def Let_def ebind_eq_Inr simp del: hull_dists.simps
           split: if_splits)

lemma lower_vertices_points:
  fixes pts :: "(real \<times> real) list"
  defines "L \<equiv> \<lambda>enth vol vs. argsort_comp (lower_vertices pts enth vol vs)"
  shows "map fst (map (\<lambda>(c, e, h, v). (c, e)) (L enth vol vs)) = map fst (L enth vol vs)"
    and "map snd (map (\<lambda>(c, e, h, v). (c, e)) (L enth vol vs))
           = map (\<lambda>(c, e, h, v). e) (L enth vol vs)"
    and "sorted (map fst (L enth vol vs))"
    and "set (map (\<lambda>(c, e, h, v). (c, e)) (L enth vol vs))
           = {q \<in> (\<lambda>v. pts ! v) ` set vs. snd q \<le> 0}"
proof -
  show "map fst (map (\<lambda>(c, e, h, v). (c, e)) (L enth vol vs)) = map fst (L enth vol vs)"
    by (simp add: case_prod_beta comp_def)
  show "map snd (map (\<lambda>(c, e, h, v). (c, e)) (L enth vol vs))
           = map (\<lambda>(c, e, h, v). e) (L enth vol vs)"
    by (simp add: case_prod_beta comp_def)
  show "sorted (map fst (L enth vol vs))"
    by (simp add: L_def argsort_comp_def)
  show "set (map (\<lambda>(c, e, h, v). (c, e)) (L enth vol vs))
           = {q \<in> (\<lambda>v. pts ! v) ` set vs. snd q \<le> 0}"
    by (auto simp: L_def argsort_comp_def lower_vertices_def image_iff)
qed

lemma binary_hull_distances:
  assumes run: "binary_hull qhull [x_elem, b_elem] match0 match1 mu_volume cutoff cur = Inr r"
    and vs: "qhull (structures r) = Inr vs"
    and valid: "is_hull_vertices (structures r) vs"
    and inner: "\<forall>q \<in> set (butlast (tl (structures r))). 0 < fst q \<and> fst q < 1"
  shows "length (hull_dist r) = length (structures r)"
    and "ind < length (structures r) \<Longrightarrow>
         \<exists>d. hull_dist r ! ind = Fin d \<and> 0 \<le> d
           \<and> (ind \<in> set vs \<and> snd (structures r ! ind) \<le> 0 \<longrightarrow> d = 0)"
proof -
  from binary_hull_unfold [OF run] obtain rs :: "row list" and vs' where
    pts: "structures r = (0, 0) # zip (map row_stoich rs) (map row_formation rs) @ [(1, 0)]"
    and vs': "qhull (structures r) = Inr vs'"
    and c': "hull_comp r
        = map fst (argsort_comp (lower_vertices (structures r)
            (enthalpy_per_atom match1 # map row_enthalpy rs @ [enthalpy_per_atom match0])
            (snd mu_volume # map row_volume rs @ [fst mu_volume]) vs'))"
    and e': "hull_energy r
        = map (\<lambda>(c, e, h, v). e) (argsort_comp (lower_vertices (structures r)
            (enthalpy_per_atom match1 # map row_enthalpy rs @ [enthalpy_per_atom match0])
            (snd mu_volume # map row_volume rs @ [fst mu_volume]) vs'))"
    and dists: "hull_dists (hull_comp r) (hull_energy r) (structures r) = Inr (hull_dist r)"
    by blast
  from vs vs' have same: "vs' = vs" by simp
  from c' e' obtain enth vol where
    comps: "hull_comp r = map fst (argsort_comp (lower_vertices (structures r) enth vol vs))"
    and energies: "hull_energy r = map (\<lambda>(c, e, h, v). e)
                          (argsort_comp (lower_vertices (structures r) enth vol vs))"
    unfolding same by blast
  define P where "P = set (structures r)"
  define V where "V = (\<lambda>v. structures r ! v) ` set vs"
  define Lp where "Lp = map (\<lambda>(c, e, h, v). (c, e))
                          (argsort_comp (lower_vertices (structures r) enth vol vs))"
  have hull: "\<forall>p \<in> P. p \<in> convex_closure V"
    and ext: "\<forall>v \<in> V. v \<notin> convex_closure (P - {v})"
    and VP: "V \<subseteq> P"
    using valid by (auto simp: is_hull_vertices_def P_def V_def)
  have O: "(0, 0) \<in> P" and E: "(1, 0) \<in> P"
    by (simp_all add: P_def pts)
  from inner have inner': "\<forall>q \<in> set (zip (map row_stoich rs) (map row_formation rs)).
                             0 < fst q \<and> fst q < 1"
    by (simp add: pts)
  have range: "\<forall>p \<in> P. 0 \<le> fst p \<and> fst p \<le> 1"
    using inner' by (auto simp: P_def pts dest: less_imp_le)
  have ends: "\<forall>p \<in> P. (fst p = 0 \<longrightarrow> p = (0, 0)) \<and> (fst p = 1 \<longrightarrow> p = (1, 0))"
    using inner' by (auto simp: P_def pts)
  note lv = lower_vertices_points [of "structures r" enth vol vs]
  have c_eq: "hull_comp r = map fst Lp"
    unfolding comps Lp_def by (rule lv(1) [symmetric])
  have e_eq: "hull_energy r = map snd Lp"
    unfolding energies Lp_def by (rule lv(2) [symmetric])
  have srt: "sorted (map fst Lp)"
    unfolding Lp_def lv(1) by (rule lv(3))
  have set_Lp: "set Lp = {v \<in> V. snd v \<le> 0}"
    unfolding Lp_def V_def by (rule lv(4))
  from hull_dists_nth [OF dists]
  have len: "length (hull_dist r) = length (structures r)"
    and at: "\<forall>i < length (structures r).
               hull_dist_at (hull_comp r) (hull_energy r) (structures r ! i) = Inr (hull_dist r ! i)"
    by auto
  from len show "length (hull_dist r) = length (structures r)" .
  show "\<exists>d. hull_dist r ! ind = Fin d \<and> 0 \<le> d
           \<and> (ind \<in> set vs \<and> snd (structures r ! ind) \<le> 0 \<longrightarrow> d = 0)"
    if "ind < length (structures r)"
  proof -
    from that have "structures r ! ind \<in> P" by (simp add: P_def)
    from hull_dist_at_nonneg [OF hull ext VP O E range ends srt set_Lp this]
    obtain d where "hull_dist_at (map fst Lp) (map snd Lp) (structures r ! ind) = Inr (Fin d)"
      "0 \<le> d" "structures r ! ind \<in> V \<and> snd (structures r ! ind) \<le> 0 \<longrightarrow> d = 0"
      by blast
    with at that show ?thesis
      by (auto simp: c_eq e_eq V_def)
  qed
qed

lemma binary_records_inner:
  assumes run: "binary_hull qhull [x_elem, b_elem] match0 match1 mu_volume cutoff cur = Inr r"
    and recs: "\<forall>d \<in> set cur. binary_record x_elem d"
  shows "\<forall>q \<in> set (butlast (tl (structures r))). 0 < fst q \<and> fst q < 1"
proof -
  from binary_hull_unfold [OF run] obtain rs :: "row list" where
    rows: "structure_rows x_elem b_elem [match0, match1] cur = Inr rs"
    and pts: "structures r = (0, 0) # zip (map row_stoich rs) (map row_formation rs) @ [(1, 0)]"
    by blast
  have "0 < fst q \<and> fst q < 1" if "q \<in> set (zip (map row_stoich rs) (map row_formation rs))" for q
  proof -
    from that obtain i where i: "i < length rs" "fst q = row_stoich (rs ! i)"
      by (auto simp: in_set_conv_nth)
    from structure_rows_nth [OF rows] i(1)
    have "length rs = length cur"
      "structure_row x_elem b_elem [match0, match1] (cur ! i) = Inr (rs ! i)"
      by auto
    moreover from this i(1) recs have "binary_record x_elem (cur ! i)" by auto
    ultimately show ?thesis
      using binary_record_stoich i(2) by metis
  qed
  then show ?thesis by (simp add: pts)
qed

lemma scenario_vertices:
  "is_hull_vertices [(0, 0), (1 / 2, - (1 / 2)), (1, 0)] [0, 1, 2]"
proof -
  let ?P = "[(0, 0), (1 / 2, - (1 / 2)), (1, 0)] :: (real \<times> real) list"
  have a: "(0, 0) \<notin> convex_closure (set ?P - {(0, 0)})"
  proof
    assume in_closure: "(0, 0) \<in> convex_closure (set ?P - {(0, 0)})"
    have "\<forall>s \<in> set ?P - {(0, 0)}. 0 \<le> 1 * fst s + 0 * snd s + - (1 / 2)"
      by auto
    from convex_closure_halfplane [OF in_closure this] show False by simp
  qed
  have b: "(1 / 2, - (1 / 2)) \<notin> convex_closure (set ?P - {(1 / 2, - (1 / 2))})"
  proof
    assume in_closure: "(1 / 2, - (1 / 2)) \<in> convex_closure (set ?P - {(1 / 2, - (1 / 2))})"
    have "\<forall>s \<in> set ?P - {(1 / 2, - (1 / 2))}. 0 \<le> 0 * fst s + 1 * snd s + 0"
      by auto
    from convex_closure_halfplane [OF in_closure this] show False by simp
  qed
  have c: "(1, 0) \<notin> convex_closure (set ?P - {(1, 0)})"
  proof
    assume in_closure: "(1, 0) \<in> convex_closure (set ?P - {(1, 0)})"
    have "\<forall>s \<in> set ?P - {(1, 0)}. 0 \<le> (- 1) * fst s + 0 * snd s + 1 / 2"
      by auto
    from convex_closure_halfplane [OF in_closure this] show False by simp
  qed
  show ?thesis
    unfolding is_hull_vertices_def
    using a b c by (auto intro: convex_closure.base simp: nth_Cons')
qed

lemma scenario2_vertices:
  "is_hull_vertices [(0, 0), (1 / 2, - (1 / 2)), (1 / 2, - (3 / 10)), (1, 0)] [0, 1, 3]"
proof -
  let ?P = "[(0, 0), (1 / 2, - (1 / 2)), (1 / 2, - (3 / 10)), (1, 0)] :: (real \<times> real) list"
  let ?V = "{(0, 0), (1 / 2, - (1 / 2)), (1, 0)} :: (real \<times> real) set"
  have a: "(0, 0) \<notin> convex_closure (set ?P - {(0, 0)})"
  proof
    assume in_closure: "(0, 0) \<in> convex_closure (set ?P - {(0, 0)})"
    have "\<forall>s \<in> set ?P - {(0, 0)}. 0 \<le> 1 * fst s + 0 * snd s + - (1 / 2)"
      by auto
    from convex_closure_halfplane [OF in_closure this] show False by simp
  qed
  have b: "(1 / 2, - (1 / 2)) \<notin> convex_closure (set ?P - {(1 / 2, - (1 / 2))})"
  proof
    assume in_closure: "(1 / 2, - (1 / 2)) \<in> convex_closure (set ?P - {(1 / 2, - (1 / 2))})"
    have "\<forall>s \<in> set ?P - {(1 / 2, - (1 / 2))}. 0 \<le> 0 * fst s + 1 * snd s + 3 / 10"
      by auto
    from convex_closure_halfplane [OF in_closure this] show False by simp
  qed
  have c: "(1, 0) \<notin> convex_closure (set ?P - {(1, 0)})"
  proof
    assume in_closure: "(1, 0) \<in> convex_closure (set ?P - {(1, 0)})"
    have "\<forall>s \<in> set ?P - {(1, 0)}. 0 \<le> (- 1) * fst s + 0 * snd s + 1 / 2"
      by auto
    from convex_closure_halfplane [OF in_closure this] show False by simp
  qed
  have hi: "(1 / 2, 0) \<in> convex_closure ?V"
    by (intro chord_point) simp_all
  have lo: "(1 / 2, - (1 / 2)) \<in> convex_closure ?V"
    by (intro convex_closure.base) simp
  from vertical_point [OF lo hi, of "- (3 / 10)"]
  have d: "(1 / 2, - (3 / 10)) \<in> convex_closure ?V"
    by simp
  have img: "(\<lambda>v. ?P ! v) ` set [0, 1, 3] = ?V"
    by (auto simp: nth_Cons')
  show ?thesis
    unfolding is_hull_vertices_def img
    using a b c d by (auto intro: convex_closure.base simp: nth_Cons')
qed

lemma scenario2_binary_hull:
  "binary_hull scenario2_qhull [''A'', ''B''] scenario_A scenario_B (0, 0) 0
     [scenario_AB, scenario_AB2] = Inr scenario2_result"
  by code_simp

text \<open>
  In exact arithmetic, for a hull routine that returns the vertices of the convex hull of
  the points it is given, and a cursor in which every record is a compound of the two
  elements: \<open>binary_hull\<close> computes a distance for every point of the point set, the two
  reference points included; each distance is a finite number, and none is negative.
\<close>

lemma compounds_hull_distance_nonnegative:
  assumes run: "binary_hull qhull [x_elem, b_elem] match0 match1 mu_volume cutoff cur = Inr r"
    and qh: "\<forall>vs. qhull (structures r) = Inr vs \<longrightarrow> is_hull_vertices (structures r) vs"
    and recs: "\<forall>d \<in> set cur. binary_record x_elem d"
  shows "length (hull_dist r) = length (structures r)
    \<and> (\<forall>ind < length (structures r). \<exists>d. hull_dist r ! ind = Fin d \<and> 0 \<le> d)"
proof -
  from binary_hull_unfold [OF run] obtain vs where vs: "qhull (structures r) = Inr vs"
    by blast
  with qh have valid: "is_hull_vertices (structures r) vs" by simp
  note inner = binary_records_inner [OF run recs]
  from binary_hull_distances [OF run vs valid inner] show ?thesis
    by blast
qed

lemma compounds_hull_distance_nonnegative_scenario:
  "binary_hull scenario2_qhull [''A'', ''B''] scenario_A scenario_B (0, 0) 0
     [scenario_AB, scenario_AB2] = Inr scenario2_result
   \<and> is_hull_vertices (structures scenario2_result) [0, 1, 3]
   \<and> binary_record ''A'' scenario_AB \<and> binary_record ''A'' scenario_AB2
   \<and> length (hull_dist scenario2_result) = length (structures scenario2_result)
   \<and> hull_dist scenario2_result = [Fin 0, Fin 0, Fin (1 / 5), Fin 0]"
proof -
  have valid: "is_hull_vertices (structures scenario2_result) [0, 1, 3]"
    using scenario2_vertices by (simp add: scenario2_result_def)
  then have qh: "\<forall>vs. scenario2_qhull (structures scenario2_result) = Inr vs
                  \<longrightarrow> is_hull_vertices (structures scenario2_result) vs"
    by (simp add: scenario2_qhull_def)
  have r1: "binary_record ''A'' scenario_AB" and r2: "binary_record ''A'' scenario_AB2"
    by (simp_all add: binary_record_def scenario_AB_def scenario_AB2_def)
  then have recs: "\<forall>d \<in> set [scenario_AB, scenario_AB2]. binary_record ''A'' d"
    by simp
  from compounds_hull_distance_nonnegative [OF scenario2_binary_hull qh recs]
  have "length (hull_dist scenario2_result) = length (structures scenario2_result)"
    by blast
  moreover have "hull_dist scenario2_result = [Fin 0, Fin 0, Fin (1 / 5), Fin 0]"
    by (simp add: scenario2_result_def)
  ultimately show ?thesis
    using scenario2_binary_hull valid r1 r2 by blast
qed

section \<open>A record without the first element in the hull\<close>

text \<open>
  The points of the cursor of \<open>CB\<close> and the second compound \<open>AB\<close>: \<open>CB\<close> keeps the
  composition 0 that \<open>np.zeros\<close> gave it, and only the reference of \<open>B\<close> is taken off its
  energy. The hull of the four points is the triangle of the two references and \<open>CB\<close>, in
  whatever order a hull routine lists the three.
\<close>

lemma scenario_CB_rows:
  "structure_rows ''A'' ''B'' [scenario_A, scenario_B] [scenario_CB, scenario_AB2]
   = Inr [\<lparr>row_doc = scenario_CB\<lparr>enthalpy_per_b := Some (- 4)\<rparr>, row_formation = - 1,
             row_stoich = 0, row_enthalpy = - 4, row_volume = 12\<rparr>,
          \<lparr>row_doc = scenario_AB2\<lparr>enthalpy_per_b := Some (- (18 / 5)), stoich := Some (1 / 2),
                                    num_a := Some (Fin 1)\<rparr>,
             row_formation = - (3 / 10), row_stoich = 1 / 2, row_enthalpy = - (18 / 5),
             row_volume = 11\<rparr>]"
  by code_simp

lemma scenario_CB_vertices:
  assumes vs: "set vs = {0, 1, 3}"
  shows "is_hull_vertices [(0, 0), (0, - 1), (1 / 2, - (3 / 10)), (1, 0)] vs"
proof -
  let ?P = "[(0, 0), (0, - 1), (1 / 2, - (3 / 10)), (1, 0)] :: (real \<times> real) list"
  let ?V = "{(0, 0), (0, - 1), (1, 0)} :: (real \<times> real) set"
  have a: "(0, 0) \<notin> convex_closure (set ?P - {(0, 0)})"
  proof
    assume in_closure: "(0, 0) \<in> convex_closure (set ?P - {(0, 0)})"
    have "\<forall>s \<in> set ?P - {(0, 0)}. 0 \<le> 1 * fst s + (- 1) * snd s + - (1 / 2)"
      by auto
    from convex_closure_halfplane [OF in_closure this] show False by simp
  qed
  have b: "(0, - 1) \<notin> convex_closure (set ?P - {(0, - 1)})"
  proof
    assume in_closure: "(0, - 1) \<in> convex_closure (set ?P - {(0, - 1)})"
    have "\<forall>s \<in> set ?P - {(0, - 1)}. 0 \<le> 0 * fst s + 1 * snd s + 1 / 2"
      by auto
    from convex_closure_halfplane [OF in_closure this] show False by simp
  qed
  have c: "(1, 0) \<notin> convex_closure (set ?P - {(1, 0)})"
  proof
    assume in_closure: "(1, 0) \<in> convex_closure (set ?P - {(1, 0)})"
    have "\<forall>s \<in> set ?P - {(1, 0)}. 0 \<le> (- 1) * fst s + 0 * snd s + 1 / 2"
      by auto
    from convex_closure_halfplane [OF in_closure this] show False by simp
  qed
  have hi: "(1 / 2, 0) \<in> convex_closure ?V"
    by (intro chord_point) simp_all
  have "(0, - 1) \<in> convex_closure ?V" and "(1, 0) \<in> convex_closure ?V"
    by (simp_all add: convex_closure.base)
  from segment_point [OF this, of "1 / 2"]
  have lo: "(1 / 2, - (1 / 2)) \<in> convex_closure ?V"
    by simp
  from vertical_point [OF lo hi, of "- (3 / 10)"]
  have d: "(1 / 2, - (3 / 10)) \<in> convex_closure ?V"
    by simp
  have img: "(\<lambda>v. ?P ! v) ` set vs = ?V"
    unfolding vs by (auto simp: nth_Cons')
  show ?thesis
    unfolding is_hull_vertices_def img
    using a b c d unfolding vs by (auto intro: convex_closure.base simp: nth_Cons')
qed

text \<open>
  Claim C2 asks that no point has a negative hull distance. The loop of \<open>binary_hull\<close>
  stops on a record without the second element (lines 180 to 186) and has no such test
  for the first (lines 203 to 210). On the cursor of \<open>CB\<close> and \<open>AB\<close> the run returns, and
  for each of the six orders in which the three vertices can be listed one distance is
  negative: that of \<open>CB\<close>, \<open>-1\<close>, when the reference of \<open>B\<close> is listed before \<open>CB\<close>, and
  that of \<open>AB\<close>, \<open>-3/10\<close>, when \<open>CB\<close> is listed first.
\<close>

theorem C2_record_without_first_element_below_hull:
  "map (\<lambda>vs. map_sum id hull_dist
          (binary_hull (listed_vertices vs) [''A'', ''B''] scenario_A scenario_B (0, 0) 0
             [scenario_CB, scenario_AB2]))
     [[0, 1, 3], [3, 0, 1], [0, 3, 1], [1, 3, 0], [1, 0, 3], [3, 1, 0]]
   = [Inr [Fin 0, Fin (- 1), Fin (1 / 5), Fin 0],
      Inr [Fin 0, Fin (- 1), Fin (1 / 5), Fin 0],
      Inr [Fin 0, Fin (- 1), Fin (1 / 5), Fin 0],
      Inr [Fin 1, Fin 0, Fin (- (3 / 10)), Fin 0],
      Inr [Fin 1, Fin 0, Fin (- (3 / 10)), Fin 0],
      Inr [Fin 1, Fin 0, Fin (- (3 / 10)), Fin 0]]"
  by code_simp

section \<open>The formation energy\<close>

lemma formation_inner_sum:
  "formation_inner mu_elem mu_epa atoms_per_fu s f
     = f - mu_epa * real (sum_list (map snd (filter (\<lambda>en. fst en = mu_elem) s)))
             / real atoms_per_fu"
proof (induction s arbitrary: f)
  case Nil
  then show ?case by simp
next
  case (Cons en s)
  obtain e n where en: "en = (e, n)" by (cases en)
  show ?case
    by (auto simp: en Cons.IH add_divide_distrib distrib_left)
qed

lemma structure_row_formation:
  assumes "structure_row x_elem b_elem [match0, match1] d = Inr row"
    and "length (stoichiometry d) = 2"
  shows "row_formation row
           = enthalpy_per_atom d
             - (enthalpy_per_atom match0 * mole_fraction (chempot_element match0) (stoichiometry d)
                + enthalpy_per_atom match1 * mole_fraction (chempot_element match1) (stoichiometry d))"
proof -
  from assms(2) obtain en0 en1 where "stoichiometry d = [en0, en1]"
    by (auto simp: numeral_2_eq_2 length_Suc_conv)
  then obtain e0 n0 e1 n1 where s: "stoichiometry d = [(e0, n0), (e1, n1)]"
    by (cases en0; cases en1) simp
  from assms(1) s have f: "formation_outer [match0, match1] (n0 + n1) [(e0, n0), (e1, n1)]
                            (enthalpy_per_atom d) = Inr (row_formation row)"
    by (auto simp: structure_row_def Let_def ebind_eq_Inr split: if_splits prod.splits)
  then obtain m0 k0 r0 m1 k1 r1 where
    st: "stoichiometry match0 = (m0, k0) # r0" "stoichiometry match1 = (m1, k1) # r1"
    by (auto split: list.splits)
  with f have "row_formation row
      = formation_inner m1 (enthalpy_per_atom match1) (n0 + n1) [(e0, n0), (e1, n1)]
          (formation_inner m0 (enthalpy_per_atom match0) (n0 + n1) [(e0, n0), (e1, n1)]
             (enthalpy_per_atom d))"
    by (simp del: formation_inner.simps)
  then show ?thesis
    unfolding formation_inner_sum
    by (simp add: mole_fraction_def chempot_element_def st s)
qed

lemma scenario_row:
  "structure_rows ''A'' ''B'' [scenario_A, scenario_B] [scenario_AB]
     = Inr [\<lparr>row_doc = scenario_AB\<lparr>enthalpy_per_b := Some (- 4), stoich := Some (1 / 2),
                                      num_a := Some (Fin 1)\<rparr>,
             row_formation = - (1 / 2), row_stoich = 1 / 2, row_enthalpy = - 4,
             row_volume = 10\<rparr>]"
  by code_simp

text \<open>
  Claim C1. For every record with two stoichiometry entries that \<open>binary_hull\<close>
  processes, the formation energy of its point is its enthalpy per atom minus the
  enthalpies per atom of the two chemical potentials, each weighted by the mole fraction
  of its element in the formula unit. In the scenario (references at \<open>-1.0\<close> and \<open>-2.0\<close>,
  one compound \<open>AB\<close> at \<open>-2.0\<close>), whatever hull routine returns the vertices of the hull:
  the compound's point is \<open>(0.5, -0.5)\<close>, it is one of the vertices, and its distance
  is \<open>0\<close>.
\<close>

theorem C1_formation_energy:
  "(binary_hull qhull [x_elem, b_elem] match0 match1 mu_volume cutoff cur = Inr r
      \<and> ind < length cur \<and> length (stoichiometry (cur ! ind)) = 2
    \<longrightarrow> snd (structures r ! (ind + 1))
          = enthalpy_per_atom (cur ! ind)
            - (enthalpy_per_atom match0
                 * mole_fraction (chempot_element match0) (stoichiometry (cur ! ind))
               + enthalpy_per_atom match1
                 * mole_fraction (chempot_element match1) (stoichiometry (cur ! ind))))
   \<and> (binary_hull qhull' [''A'', ''B''] scenario_A scenario_B mu_volume' cutoff' [scenario_AB]
        = Inr r'
      \<and> qhull' (structures r') = Inr vs \<and> is_hull_vertices (structures r') vs
    \<longrightarrow> structures r' ! 1 = (1 / 2, - (1 / 2)) \<and> 1 \<in> set vs \<and> hull_dist r' ! 1 = Fin 0)"
proof (intro conjI impI)
  assume a: "binary_hull qhull [x_elem, b_elem] match0 match1 mu_volume cutoff cur = Inr r
      \<and> ind < length cur \<and> length (stoichiometry (cur ! ind)) = 2"
  then have run: "binary_hull qhull [x_elem, b_elem] match0 match1 mu_volume cutoff cur = Inr r"
    and ind: "ind < length cur" and two: "length (stoichiometry (cur ! ind)) = 2"
    by simp_all
  from binary_hull_unfold [OF run] obtain rs :: "row list" where
    rows: "structure_rows x_elem b_elem [match0, match1] cur = Inr rs"
    and pts: "structures r = (0, 0) # zip (map row_stoich rs) (map row_formation rs) @ [(1, 0)]"
    by blast
  from structure_rows_nth [OF rows] ind
  have len: "length rs = length cur"
    and row: "structure_row x_elem b_elem [match0, match1] (cur ! ind) = Inr (rs ! ind)"
    by auto
  have "snd (structures r ! (ind + 1)) = row_formation (rs ! ind)"
    using ind len by (simp add: pts nth_append)
  with structure_row_formation [OF row two]
  show "snd (structures r ! (ind + 1))
          = enthalpy_per_atom (cur ! ind)
            - (enthalpy_per_atom match0
                 * mole_fraction (chempot_element match0) (stoichiometry (cur ! ind))
               + enthalpy_per_atom match1
                 * mole_fraction (chempot_element match1) (stoichiometry (cur ! ind)))"
    by simp
next
  assume b: "binary_hull qhull' [''A'', ''B''] scenario_A scenario_B mu_volume' cutoff' [scenario_AB]
        = Inr r'
      \<and> qhull' (structures r') = Inr vs \<and> is_hull_vertices (structures r') vs"
  then have run: "binary_hull qhull' [''A'', ''B''] scenario_A scenario_B mu_volume' cutoff'
                    [scenario_AB] = Inr r'"
    and vs: "qhull' (structures r') = Inr vs" and valid: "is_hull_vertices (structures r') vs"
    by simp_all
  from binary_hull_unfold [OF run] obtain rs :: "row list" where
    rows: "structure_rows ''A'' ''B'' [scenario_A, scenario_B] [scenario_AB] = Inr rs"
    and pts: "structures r' = (0, 0) # zip (map row_stoich rs) (map row_formation rs) @ [(1, 0)]"
    by blast
  from rows have "rs = [\<lparr>row_doc = scenario_AB\<lparr>enthalpy_per_b := Some (- 4),
                                      stoich := Some (1 / 2), num_a := Some (Fin 1)\<rparr>,
             row_formation = - (1 / 2), row_stoich = 1 / 2, row_enthalpy = - 4,
             row_volume = 10\<rparr>]"
    unfolding scenario_row by simp
  with pts have pts': "structures r' = [(0, 0), (1 / 2, - (1 / 2)), (1, 0)]"
    by simp
  then show p1: "structures r' ! 1 = (1 / 2, - (1 / 2))"
    by simp
  show v1: "1 \<in> set vs"
  proof (rule ccontr)
    assume no: "1 \<notin> set vs"
    from valid have "(1 / 2, - (1 / 2)) \<in> convex_closure ((\<lambda>v. structures r' ! v) ` set vs)"
      and "\<forall>v \<in> set vs. v < 3"
      by (auto simp: is_hull_vertices_def pts')
    moreover have "\<forall>s \<in> (\<lambda>v. structures r' ! v) ` set vs. 0 \<le> 0 * fst s + 1 * snd s + 0"
    proof
      fix s assume "s \<in> (\<lambda>v. structures r' ! v) ` set vs"
      then obtain v where v: "v \<in> set vs" "s = structures r' ! v" by auto
      with no calculation(2) have "v = 0 \<or> v = 2"
        by (metis One_nat_def less_Suc_eq less_one numeral_2_eq_2 numeral_3_eq_3)
      with v show "0 \<le> 0 * fst s + 1 * snd s + 0"
        by (auto simp: pts')
    qed
    ultimately show False
      using convex_closure_halfplane [of "(1 / 2, - (1 / 2))" _ 0 1 0] by fastforce
  qed
  have inner: "\<forall>q \<in> set (butlast (tl (structures r'))). 0 < fst q \<and> fst q < 1"
    by (simp add: pts')
  from binary_hull_distances(2) [OF run vs valid inner, of 1] p1 v1
  show "hull_dist r' ! 1 = Fin 0"
    by (auto simp: pts')
qed

theorem C1_formation_energy_witness:
  "binary_hull scenario_qhull [''A'', ''B''] scenario_A scenario_B (0, 0) 0 [scenario_AB]
     = Inr scenario_result
   \<and> scenario_qhull (structures scenario_result) = Inr [0, 1, 2]
   \<and> is_hull_vertices (structures scenario_result) [0, 1, 2]
   \<and> length (stoichiometry ([scenario_AB] ! 0)) = 2
   \<and> mole_fraction ''A'' (stoichiometry scenario_AB) = 1 / 2
   \<and> mole_fraction ''B'' (stoichiometry scenario_AB) = 1 / 2
   \<and> structures scenario_result ! 1 = (1 / 2, - (1 / 2))
   \<and> hull_dist scenario_result ! 1 = Fin 0"
proof -
  have valid: "is_hull_vertices (structures scenario_result) [0, 1, 2]"
    using scenario_vertices by (simp add: scenario_result_def)
  have qh: "scenario_qhull (structures scenario_result) = Inr [0, 1, 2]"
    by (simp add: scenario_qhull_def)
  have two: "length (stoichiometry ([scenario_AB] ! 0)) = 2"
    by (simp add: scenario_AB_def)
  have mf: "mole_fraction ''A'' (stoichiometry scenario_AB) = 1 / 2"
    "mole_fraction ''B'' (stoichiometry scenario_AB) = 1 / 2"
    by (simp_all add: mole_fraction_def scenario_AB_def)
  from C1_formation_energy
    [where qhull = scenario_qhull and x_elem = "''A''" and b_elem = "''B''"
       and ?match0.0 = scenario_A and ?match1.0 = scenario_B and mu_volume = "(0, 0)"
       and cutoff = 0 and cur = "[scenario_AB]" and r = scenario_result and ind = 0
       and qhull' = scenario_qhull and mu_volume' = "(0, 0)" and cutoff' = 0
       and r' = scenario_result and vs = "[0, 1, 2]"]
    scenario_binary_hull valid qh two
  have "structures scenario_result ! 1 = (1 / 2, - (1 / 2))
    \<and> hull_dist scenario_result ! 1 = Fin 0"
    by simp
  with scenario_binary_hull valid qh two mf show ?thesis
    by simp
qed

end
